theory Spec2Isabelle
  imports Main "HOL-Library.Sublist"
begin

section \<open>The BigBlueButton management command of Esup-Pod (bbb.py)\<close>

text \<open>
  A shallow embedding of \<^verbatim>\<open>pod/video/management/commands/bbb.py\<close>. Every function of
  the command is a HOL function of the same name over an explicit state (the database
  tables and the effects on the file system). A \<^verbatim>\<open>try ... except Exception\<close> block is
  a function whose result says whether an exception cut the block short; the handler is
  the caller's case distinction on that result. Debug printing is left out.
\<close>

subsection \<open>Exceptions\<close>

datatype exn =
    IndexError            \<comment> \<open>\<^verbatim>\<open>getElementsByTagName(t)[0]\<close> on an empty node list\<close>
  | AttributeError        \<comment> \<open>\<^verbatim>\<open>.firstChild.data\<close> where the first child is missing or no text\<close>
  | ValueError            \<comment> \<open>\<^verbatim>\<open>dateutil.parser.parse\<close> on a malformed date\<close>
  | UnboundLocalError     \<comment> \<open>a local variable read before any assignment\<close>
  | RequestError          \<comment> \<open>\<^verbatim>\<open>requests.get\<close> or \<^verbatim>\<open>minidom.parseString\<close> failed\<close>
  | DoesNotExist          \<comment> \<open>\<^verbatim>\<open>objects.get\<close> found no row\<close>
  | OSError               \<comment> \<open>\<^verbatim>\<open>os.rename\<close> failed\<close>
  | EncodeError           \<comment> \<open>the encoding pipeline refused the submission\<close>

fun exn_str :: "exn \<Rightarrow> string" where
  "exn_str IndexError = ''list index out of range''"
| "exn_str AttributeError = ''object has no attribute data''"
| "exn_str ValueError = ''Unknown string format''"
| "exn_str UnboundLocalError = ''local variable referenced before assignment''"
| "exn_str RequestError = ''request failed''"
| "exn_str DoesNotExist = ''matching query does not exist''"
| "exn_str OSError = ''No such file or directory''"
| "exn_str EncodeError = ''encoding failed''"

subsection \<open>The XML documents of the remote server (xml.dom.minidom)\<close>

text \<open>
  A node is an element with a tag name and its children, or a text node with its data.
  \<^verbatim>\<open>getElementsByTagName\<close> returns the descendant elements with the given tag in
  document order (the node itself is not among them).
\<close>

datatype xml = Element string "xml list" | Text string

fun getElementsByTagName :: "string \<Rightarrow> xml \<Rightarrow> xml list" where
  "getElementsByTagName t (Text d) = []"
| "getElementsByTagName t (Element n cs) =
     concat (map (\<lambda>c. (case c of Element n' cs' \<Rightarrow> if n' = t then [c] else [] | Text d \<Rightarrow> [])
                        @ getElementsByTagName t c) cs)"

text \<open>\<^verbatim>\<open>node.firstChild.data\<close>: the data of the first child when it is a text node.\<close>

fun firstChild_data :: "xml \<Rightarrow> exn + string" where
  "firstChild_data (Element n (Text d # cs)) = Inr d"
| "firstChild_data (Element n (Element n' cs' # cs)) = Inl AttributeError"
| "firstChild_data (Element n []) = Inl AttributeError"
| "firstChild_data (Text d) = Inl AttributeError"

text \<open>\<^verbatim>\<open>node.getElementsByTagName(tag)[0].firstChild.data\<close>, the one way the command
  reads a field.\<close>

definition tag_data :: "string \<Rightarrow> xml \<Rightarrow> exn + string" where
  "tag_data tag node =
     (case getElementsByTagName tag node of
        [] \<Rightarrow> Inl IndexError
      | e # es \<Rightarrow> firstChild_data e)"

subsection \<open>The database\<close>

text \<open>
  Modelled from the spec: the models \<^verbatim>\<open>pod.bbb.models.Meeting\<close>,
  \<^verbatim>\<open>pod.bbb.models.User\<close>, \<^verbatim>\<open>django.contrib.auth.models.User\<close> and
  \<^verbatim>\<open>pod.video.models.Video\<close> are not part of the command's file; the records below
  have the fields the command reads and writes, with the defaults of the spec's data
  model. A table is the list of its rows in primary-key order and the primary key of the
  row at position \<open>i\<close> is \<open>i + 1\<close> (keys start at 1 and are never reused); the command
  deletes no row. Time stamps are seconds.
\<close>

record meeting =
  meeting_id :: string
  internal_meeting_id :: string
  meeting_name :: string
  session_date :: int
  encoding_step :: nat
  recorded :: bool
  recording_available :: bool
  recording_url :: "string option"
  thumbnail_url :: "string option"
  encoded_by_id :: "nat option"

text \<open>The moderator of a meeting (\<^verbatim>\<open>BBBUser\<close>); \<open>bbb_meeting_id\<close> is its
  \<^verbatim>\<open>meeting_id\<close>, the key of the meeting's row.\<close>

record bbb_user =
  full_name :: string
  role :: string
  bbb_meeting_id :: nat
  user_id :: "nat option"
  username :: "string option"

text \<open>A local account (\<^verbatim>\<open>User\<close>); \<open>pod_username\<close> is its \<^verbatim>\<open>username\<close>.\<close>

record pod_user =
  pod_username :: string
  first_name :: string
  last_name :: string

record video =
  title :: string
  owner :: "nat option"
  video_type :: nat
  date_evt :: int
  video_source :: string

record state =
  meetings :: "meeting list"
  bbb_users :: "bbb_user list"
  pod_users :: "pod_user list"
  videos :: "video list"
  moved :: "string list"      \<comment> \<open>source paths that \<^verbatim>\<open>os.rename\<close> has moved\<close>
  encoded :: "nat list"       \<comment> \<open>video keys handed to \<^verbatim>\<open>ENCODE_VIDEO\<close>\<close>

text \<open>\<^verbatim>\<open>objects.filter(...).first()\<close>: the matching row with the least key, with its key.\<close>

fun first_from :: "nat \<Rightarrow> ('a \<Rightarrow> bool) \<Rightarrow> 'a list \<Rightarrow> (nat \<times> 'a) option" where
  "first_from k P [] = None"
| "first_from k P (x # xs) = (if P x then Some (k, x) else first_from (Suc k) P xs)"

definition first :: "('a \<Rightarrow> bool) \<Rightarrow> 'a list \<Rightarrow> (nat \<times> 'a) option" where
  "first P xs = first_from 1 P xs"

text \<open>The rows of a table with their keys, in key order.\<close>

definition rows :: "'a list \<Rightarrow> (nat \<times> 'a) list" where
  "rows xs = zip [1..<Suc (length xs)] xs"

text \<open>\<^verbatim>\<open>obj.save()\<close> of a row read from the table: the row with that key is replaced.\<close>

definition save :: "nat \<Rightarrow> 'a \<Rightarrow> 'a list \<Rightarrow> 'a list" where
  "save k r xs = (if 0 < k then xs[k - 1 := r] else xs)"

text \<open>\<^verbatim>\<open>objects.get(id=k)\<close>.\<close>

definition get_by_id :: "nat \<Rightarrow> 'a list \<Rightarrow> exn + 'a" where
  "get_by_id k xs = (if 0 < k \<and> k \<le> length xs then Inr (xs ! (k - 1)) else Inl DoesNotExist)"

subsection \<open>Settings and the world outside\<close>

text \<open>
  The settings the command reads and what a run receives from outside: the answers of
  the remote server (\<open>Inl\<close> when the request or the parse raised), the clock, the date
  parser of \<^verbatim>\<open>dateutil\<close>, the directory tree under \<^verbatim>\<open>DEFAULT_BBB_PATH\<close>, and which file
  moves (by source path) and encoding submissions (by video key) fail.
\<close>

datatype dirtree = Dir "string list" "(string \<times> dirtree) list"
  \<comment> \<open>a directory: the names of its files, and its subdirectories by name\<close>

record env =
  BBB_USERNAME_FORMAT :: string
  VIDEO_ALLOWED_EXTENSIONS :: "string list"
  DEFAULT_BBB_PATH :: string
  DEFAULT_BBB_TYPE_ID :: nat
  type_exists :: bool
  getMeetings :: "exn + xml"
  getRecordings :: "string \<Rightarrow> exn + xml"
  now :: int
  parse_date :: "string \<Rightarrow> int option"
  drop_directory :: dirtree
  rename_fails :: "string \<Rightarrow> bool"
  encode_fails :: "nat \<Rightarrow> bool"

text \<open>One entry of the error report, as the handlers append it to the two messages.\<close>

definition add_text :: "string \<Rightarrow> string \<Rightarrow> string" where
  "add_text message_error err = message_error @ err @ ''\<newline>''"

definition add_html :: "string \<Rightarrow> string \<Rightarrow> string" where
  "add_html html_message_error err = html_message_error @ ''<li>'' @ err @ ''</li>''"

subsection \<open>Current meetings and their moderators\<close>

definition get_attendee_try :: "xml \<Rightarrow> nat \<Rightarrow> state \<Rightarrow> state \<times> exn option" where
  "get_attendee_try attendee idActualMeeting s =
     (case tag_data ''fullName'' attendee of
        Inl e \<Rightarrow> (s, Some e)
      | Inr fullName \<Rightarrow>
     (case tag_data ''role'' attendee of
        Inl e \<Rightarrow> (s, Some e)
      | Inr role_data \<Rightarrow>
          if role_data = ''MODERATOR'' then
            (case first (\<lambda>u. full_name u = fullName \<and> bbb_meeting_id u = idActualMeeting)
                        (bbb_users s) of
               Some oBBBUser \<Rightarrow> (s, None)
             | None \<Rightarrow>
                 (s\<lparr>bbb_users := bbb_users s @
                       [\<lparr>full_name = fullName, role = ''MODERATOR'',
                         bbb_meeting_id = idActualMeeting,
                         user_id = None, username = None\<rparr>]\<rparr>, None))
          else (s, None)))"

definition get_attendee :: "xml \<Rightarrow> nat \<Rightarrow> string \<Rightarrow> string \<Rightarrow> state \<Rightarrow> state \<times> string \<times> string" where
  "get_attendee attendee idActualMeeting html_message_error message_error s =
     (case get_attendee_try attendee idActualMeeting s of
        (s', Some e) \<Rightarrow>
          (let err = ''Problem to get BBB attendee and save in Pod database : '' @ exn_str e @ ''. ''
           in (s', add_html html_message_error err, add_text message_error err))
      | (s', None) \<Rightarrow> (s', html_message_error, message_error))"

text \<open>The loop over the attendees of a meeting; the pair that \<open>get_attendee\<close> returns
  is not assigned, so only the database changes.\<close>

definition get_attendees :: "xml list \<Rightarrow> nat \<Rightarrow> string \<Rightarrow> string \<Rightarrow> state \<Rightarrow> state" where
  "get_attendees attendees idActualMeeting html_message_error message_error s =
     fold (\<lambda>attendee s. fst (get_attendee attendee idActualMeeting
                                 html_message_error message_error s)) attendees s"

definition get_meeting_try :: "env \<Rightarrow> xml \<Rightarrow> string \<Rightarrow> string \<Rightarrow> state \<Rightarrow> state \<times> exn option" where
  "get_meeting_try ev meeting html_message_error message_error s =
     (case tag_data ''meetingName'' meeting of
        Inl e \<Rightarrow> (s, Some e)
      | Inr meetingName \<Rightarrow>
     (case tag_data ''meetingID'' meeting of
        Inl e \<Rightarrow> (s, Some e)
      | Inr meetingID \<Rightarrow>
     (case tag_data ''internalMeetingID'' meeting of
        Inl e \<Rightarrow> (s, Some e)
      | Inr internalMeetingID \<Rightarrow>
     (case tag_data ''createDate'' meeting of
        Inl e \<Rightarrow> (s, Some e)
      | Inr date \<Rightarrow>
     (case tag_data ''recording'' meeting of
        Inl e \<Rightarrow> (s, Some e)
      | Inr recording \<Rightarrow>
     (case first (\<lambda>m. internal_meeting_id m = internalMeetingID) (meetings s) of
        Some (idActualMeeting, oMeeting) \<Rightarrow>
          (let s1 = (if \<not> recorded oMeeting \<and> recording = ''true''
                     then s\<lparr>meetings := save idActualMeeting (oMeeting\<lparr>recorded := True\<rparr>)
                                             (meetings s)\<rparr>
                     else s)
           in (get_attendees (getElementsByTagName ''attendee'' meeting) idActualMeeting
                 html_message_error message_error s1, None))
      | None \<Rightarrow>
          (case parse_date ev date of
             None \<Rightarrow> (s, Some ValueError)
           | Some dateForSql \<Rightarrow>
               (let meetingToCreate =
                      \<lparr>meeting_id = meetingID, internal_meeting_id = internalMeetingID,
                       meeting_name = meetingName, session_date = dateForSql,
                       encoding_step = 0, recorded = (recording = ''true''),
                       recording_available = False, recording_url = None,
                       thumbnail_url = None, encoded_by_id = None\<rparr>;
                    s1 = s\<lparr>meetings := meetings s @ [meetingToCreate]\<rparr>;
                    idActualMeeting = length (meetings s1)
                in (get_attendees (getElementsByTagName ''attendee'' meeting) idActualMeeting
                      html_message_error message_error s1, None)))))))))"

definition get_meeting :: "env \<Rightarrow> xml \<Rightarrow> string \<Rightarrow> string \<Rightarrow> state \<Rightarrow> state \<times> string \<times> string" where
  "get_meeting ev meeting html_message_error message_error s =
     (case get_meeting_try ev meeting html_message_error message_error s of
        (s', Some e) \<Rightarrow>
          (let err = ''Problem to get BBB meeting and save in Pod database : '' @ exn_str e @ ''. ''
           in (s', add_html html_message_error err, add_text message_error err))
      | (s', None) \<Rightarrow> (s', html_message_error, message_error))"

text \<open>The text of the error for a \<^verbatim>\<open>FAILED\<close> return code (the URL and the document
  that the source appends are left out).\<close>

definition failed_err :: string where
  "failed_err = ''Return code = FAILED''"

definition get_bbb_meetings_by_xml :: "env \<Rightarrow> string \<Rightarrow> string \<Rightarrow> state \<Rightarrow> state \<times> string \<times> string" where
  "get_bbb_meetings_by_xml ev html_message_error message_error s =
     (let handler = (\<lambda>e.
            (let err = ''Problem to parse XML meetings on the BBB/Scalelite server ''
                       @ ''or save in Pod database : '' @ exn_str e @ ''. ''
             in (s, add_html html_message_error err, add_text message_error err)))
      in case getMeetings ev of
           Inl e \<Rightarrow> handler e
         | Inr xmldoc \<Rightarrow>
        (case tag_data ''returncode'' xmldoc of
           Inl e \<Rightarrow> handler e
         | Inr returncode \<Rightarrow>
             (let (html1, message1) =
                    (if returncode = ''FAILED''
                     then (add_html html_message_error failed_err,
                           add_text message_error failed_err)
                     else (html_message_error, message_error));
                  s' = fold (\<lambda>meeting s. fst (get_meeting ev meeting html1 message1 s))
                            (getElementsByTagName ''meeting'' xmldoc) s
              in (s', html1, message1))))"

subsection \<open>Recordings that became available\<close>

text \<open>The loop over the playback entries of a recording: every entry assigns both
  local variables, \<open>thumbnail_url\<close> being unbound (\<open>None\<close>) before the first one.\<close>

fun playback_loop :: "xml list \<Rightarrow> string \<times> string option \<Rightarrow> exn + (string \<times> string option)" where
  "playback_loop [] vars = Inr vars"
| "playback_loop (playback # playbacks) vars =
     (case tag_data ''url'' playback of
        Inl e \<Rightarrow> Inl e
      | Inr url_data \<Rightarrow>
     (case tag_data ''image'' playback of
        Inl e \<Rightarrow> Inl e
      | Inr image_data \<Rightarrow> playback_loop playbacks (url_data, Some image_data)))"

definition get_recording_try :: "xml \<Rightarrow> string \<Rightarrow> state \<Rightarrow> state \<times> exn option" where
  "get_recording_try recording internal_meeting_id_arg s =
     (case tag_data ''internalMeetingID'' recording of
        Inl e \<Rightarrow> (s, Some e)
      | Inr internalMeetingID \<Rightarrow>
          if internalMeetingID = internal_meeting_id_arg then
            (case first (\<lambda>m. internal_meeting_id m = internal_meeting_id_arg) (meetings s) of
               Some (k, oMeeting) \<Rightarrow>
                 (case playback_loop (getElementsByTagName ''playback'' recording) ('''', None) of
                    Inl e \<Rightarrow> (s, Some e)
                  | Inr (recording_url_var, thumbnail_url_var) \<Rightarrow>
                      if recording_url_var \<noteq> '''' then
                        (case thumbnail_url_var of
                           None \<Rightarrow> (s, Some UnboundLocalError)
                         | Some thumbnail \<Rightarrow>
                             (s\<lparr>meetings := save k
                                   (oMeeting\<lparr>recording_available := True,
                                             recording_url := Some recording_url_var,
                                             thumbnail_url := Some thumbnail\<rparr>)
                                   (meetings s)\<rparr>, None))
                      else (s, None))
             | None \<Rightarrow> (s, None))
          else (s, None))"

definition get_recording :: "xml \<Rightarrow> string \<Rightarrow> string \<Rightarrow> string \<Rightarrow> state \<Rightarrow> state \<times> string \<times> string" where
  "get_recording recording internal_meeting_id_arg html_message_error message_error s =
     (case get_recording_try recording internal_meeting_id_arg s of
        (s', Some e) \<Rightarrow>
          (let err = ''Problem to get BBB recording and save in Pod database : '' @ exn_str e @ ''. ''
           in (s', add_html html_message_error err, add_text message_error err))
      | (s', None) \<Rightarrow> (s', html_message_error, message_error))"

definition get_bbb_recording_by_xml ::
  "env \<Rightarrow> string \<Rightarrow> string \<Rightarrow> string \<Rightarrow> string \<Rightarrow> state \<Rightarrow> state \<times> string \<times> string" where
  "get_bbb_recording_by_xml ev meeting_id_arg internal_meeting_id_arg
       html_message_error message_error s =
     (let handler = (\<lambda>e.
            (let err = ''Problem to parse XML recording on the BBB/Scalelite server ''
                       @ ''or save in Pod database : '' @ exn_str e @ ''. ''
             in (s, add_html html_message_error err, add_text message_error err)))
      in case getRecordings ev meeting_id_arg of
           Inl e \<Rightarrow> handler e
         | Inr xmldoc \<Rightarrow>
        (case tag_data ''returncode'' xmldoc of
           Inl e \<Rightarrow> handler e
         | Inr returncode \<Rightarrow>
             (let (html1, message1) =
                    (if returncode = ''FAILED''
                     then (add_html html_message_error failed_err,
                           add_text message_error failed_err)
                     else (html_message_error, message_error));
                  s' = fold (\<lambda>recording s.
                               fst (get_recording recording internal_meeting_id_arg
                                      html1 message1 s))
                            (getElementsByTagName ''recording'' xmldoc) s
              in (s', html1, message1))))"

text \<open>The meetings the poller checks: \<^verbatim>\<open>filter(recorded=True,
  recording_available=False, session_date__gte=dateSince4d).order_by('id')\<close>, with
  \<^verbatim>\<open>dateSince4d = timezone.now() - timedelta(days=4)\<close>.\<close>

definition dateSince4d :: "env \<Rightarrow> int" where
  "dateSince4d ev = now ev - 4 * 24 * 3600"

definition meetings_to_check :: "env \<Rightarrow> state \<Rightarrow> (nat \<times> meeting) list" where
  "meetings_to_check ev s =
     filter (\<lambda>(k, m). recorded m \<and> \<not> recording_available m \<and> dateSince4d ev \<le> session_date m)
            (rows (meetings s))"

definition get_bbb_meetings_recorded :: "env \<Rightarrow> string \<Rightarrow> string \<Rightarrow> state \<Rightarrow> state \<times> string \<times> string" where
  "get_bbb_meetings_recorded ev html_message_error message_error s =
     fold (\<lambda>(k, m) (s, html_message_error, message_error).
             get_bbb_recording_by_xml ev (meeting_id m) (internal_meeting_id m)
               html_message_error message_error s)
          (meetings_to_check ev s) (s, html_message_error, message_error)"

subsection \<open>Matching the moderators with the local accounts\<close>

text \<open>\<^verbatim>\<open>name__icontains\<close>: the name contains the text, letter case ignored (here the
  letters A to Z; the text is matched literally).\<close>

definition lower :: "char \<Rightarrow> char" where
  "lower c = (let n = (of_char c :: nat) in if 65 \<le> n \<and> n \<le> 90 then char_of (n + 32) else c)"

definition icontains :: "string \<Rightarrow> string \<Rightarrow> bool" where
  "icontains name needle = sublist (map lower needle) (map lower name)"

text \<open>The name of an account in the format of the setting \<^verbatim>\<open>BBB_USERNAME_FORMAT\<close>.\<close>

definition bbbUsernameFormat :: "env \<Rightarrow> pod_user \<Rightarrow> string" where
  "bbbUsernameFormat ev u =
     (if BBB_USERNAME_FORMAT ev = ''last_name first_name''
      then last_name u @ '' '' @ first_name u
      else first_name u @ '' '' @ last_name u)"

text \<open>\<^verbatim>\<open>BBBUser.objects.filter(user_id__isnull=True).order_by('-id')[:500]\<close>\<close>

definition unmatched_bbb_users :: "state \<Rightarrow> (nat \<times> bbb_user) list" where
  "unmatched_bbb_users s = take 500 (rev (filter (\<lambda>(k, u). user_id u = None) (rows (bbb_users s))))"

definition match_bbb_user :: "env \<Rightarrow> nat \<times> bbb_user \<Rightarrow> state \<Rightarrow> state" where
  "match_bbb_user ev = (\<lambda>(k, bbbUser) s.
     (case first (\<lambda>u. icontains (bbbUsernameFormat ev u) (full_name bbbUser)) (pod_users s) of
        Some (pod_id, podUser) \<Rightarrow>
          s\<lparr>bbb_users := save k (bbbUser\<lparr>username := Some (pod_username podUser),
                                          user_id := Some pod_id\<rparr>) (bbb_users s)\<rparr>
      | None \<Rightarrow> s))"

definition matching_bbb_pod_user :: "env \<Rightarrow> string \<Rightarrow> string \<Rightarrow> state \<Rightarrow> state \<times> string \<times> string" where
  "matching_bbb_pod_user ev html_message_error message_error s =
     (fold (match_bbb_user ev) (unmatched_bbb_users s) s, html_message_error, message_error)"

subsection \<open>Publishing the video files of the directory\<close>

text \<open>Python's \<^verbatim>\<open>str.split(sep)\<close> for a separator of one character, and
  \<^verbatim>\<open>str.replace(old, new)\<close>: every occurrence of \<open>old\<close>, found from the left without
  overlap, is replaced.\<close>

fun str_split :: "char \<Rightarrow> string \<Rightarrow> string list" where
  "str_split sep [] = [[]]"
| "str_split sep (c # cs) =
     (if c = sep then [] # str_split sep cs
      else (case str_split sep cs of
              [] \<Rightarrow> [[c]]
            | w # ws \<Rightarrow> (c # w) # ws))"

function str_replace :: "string \<Rightarrow> string \<Rightarrow> string \<Rightarrow> string" where
  "str_replace [] old new = (if old = [] then new else [])"
| "str_replace (c # cs) old new =
     (if old = [] then new @ c # str_replace cs old new
      else if prefix old (c # cs) then new @ str_replace (drop (length old) (c # cs)) old new
      else c # str_replace cs old new)"
  by pat_completeness auto
termination
  by (relation "measure (\<lambda>(s, old, new). length s)") auto

text \<open>The key that \<open>encode_file_exist\<close> looks the meeting up with:
  \<^verbatim>\<open>filename.replace("." + extension, "")\<close>.\<close>

definition internalMeetingId_of :: "string \<Rightarrow> string \<Rightarrow> string" where
  "internalMeetingId_of filename extension = str_replace filename (''.'' @ extension) ''''"

text \<open>
  The video of a file of the directory. The destination path comes from
  \<^verbatim>\<open>get_storage_path_video\<close> and the clock and is not modelled: the state records the
  source path of each file moved, the video saved and the key handed to the encoding.
  The function has no \<^verbatim>\<open>try\<close>: its result is \<open>Inl\<close> when an exception leaves it.
\<close>

definition encode_file_exist ::
  "env \<Rightarrow> string \<Rightarrow> string \<Rightarrow> string \<Rightarrow> string \<Rightarrow> state \<Rightarrow> state \<times> (exn + string \<times> string)" where
  "encode_file_exist ev filename extension message_error html_message_error s =
     (let source_file = DEFAULT_BBB_PATH ev @ filename;
          internalMeetingId = internalMeetingId_of filename extension
      in case first (\<lambda>m. internal_meeting_id m = internalMeetingId) (meetings s) of
           Some (k, oMeeting) \<Rightarrow>
             (case (case encoded_by_id oMeeting of
                      None \<Rightarrow> Inr None
                    | Some uid \<Rightarrow>
                        if uid = 0 then Inr None
                        else (case get_by_id uid (pod_users s) of
                                Inl e \<Rightarrow> Inl e
                              | Inr u \<Rightarrow> Inr (Some uid))) of
                Inl e \<Rightarrow> (s, Inl e)
              | Inr video_owner \<Rightarrow>
                  if \<not> type_exists ev then (s, Inl DoesNotExist)
                  else if rename_fails ev source_file then (s, Inl OSError)
                  else
                    (let v = \<lparr>title = meeting_name oMeeting, owner = video_owner,
                              video_type = DEFAULT_BBB_TYPE_ID ev,
                              date_evt = session_date oMeeting,
                              video_source = source_file\<rparr>;
                         s1 = s\<lparr>moved := moved s @ [source_file]\<rparr>;
                         s2 = s1\<lparr>videos := videos s1 @ [v]\<rparr>;
                         video_id = length (videos s2)
                     in if encode_fails ev video_id then (s2, Inl EncodeError)
                        else (s2\<lparr>encoded := encoded s2 @ [video_id]\<rparr>,
                              Inr (html_message_error, message_error))))
         | None \<Rightarrow> (s, Inr (html_message_error, message_error)))"

text \<open>\<^verbatim>\<open>filename.split(".")[-1]\<close>, the extension that \<open>process_directory\<close> tests. Its
  parameter \<^verbatim>\<open>root\<close> only serves the debug output and is left out.\<close>

definition extension_of :: "string \<Rightarrow> string" where
  "extension_of filename = last (str_split CHR ''.'' filename)"

fun process_directory ::
  "env \<Rightarrow> string list \<Rightarrow> string \<Rightarrow> string \<Rightarrow> state \<Rightarrow> state \<times> (exn + string \<times> string)" where
  "process_directory ev [] html_message_error message_error s =
     (s, Inr (html_message_error, message_error))"
| "process_directory ev (filename # files) html_message_error message_error s =
     (let extension = extension_of filename in
      if \<not> (extension \<in> set (VIDEO_ALLOWED_EXTENSIONS ev) \<and> filename \<noteq> extension)
      then process_directory ev files html_message_error message_error s
      else (case encode_file_exist ev filename extension message_error html_message_error s of
              (s', Inl e) \<Rightarrow> (s', Inl e)
            | (s', Inr (html', message')) \<Rightarrow> process_directory ev files html' message' s'))"

text \<open>\<^verbatim>\<open>os.walk\<close> from the top, every subdirectory named \<^verbatim>\<open>logs\<close> being removed from
  the walk: the lists of files of the directories visited.\<close>

fun walk :: "dirtree \<Rightarrow> string list list" where
  "walk (Dir files dirs) =
     files # concat (map (\<lambda>(name, d). if name = ''logs'' then [] else walk d) dirs)"

fun process_directories ::
  "env \<Rightarrow> string list list \<Rightarrow> string \<Rightarrow> string \<Rightarrow> state \<Rightarrow> state \<times> (exn + string \<times> string)" where
  "process_directories ev [] html_message_error message_error s =
     (s, Inr (html_message_error, message_error))"
| "process_directories ev (files # rest) html_message_error message_error s =
     (case process_directory ev files html_message_error message_error s of
        (s', Inl e) \<Rightarrow> (s', Inl e)
      | (s', Inr (html', message')) \<Rightarrow> process_directories ev rest html' message' s')"

subsection \<open>The command\<close>

text \<open>
  One run. The result is \<open>Inl\<close> when an exception left the command before the report,
  and otherwise the mail sent to the administrators (the text and the HTML message), if
  any.
\<close>

definition valid_args :: "string list" where
  "valid_args = [''main'']"

definition handle :: "env \<Rightarrow> string \<Rightarrow> state \<Rightarrow> state \<times> (exn + (string \<times> string) option)" where
  "handle ev task s =
     (if task \<noteq> '''' \<and> task \<in> set valid_args then
        (let (s1, html1, message1) = get_bbb_meetings_by_xml ev '''' '''' s;
             (s2, html2, message2) = get_bbb_meetings_recorded ev html1 message1 s1;
             (s3, html3, message3) = matching_bbb_pod_user ev html2 message2 s2
         in case process_directories ev (walk (drop_directory ev)) html3 message3 s3 of
              (s4, Inl e) \<Rightarrow> (s4, Inl e)
            | (s4, Inr (html4, message4)) \<Rightarrow>
                if message4 \<noteq> '''' then (s4, Inr (Some (message4, html4)))
                else (s4, Inr None))
      else (s, Inr None))"

subsection \<open>Sequences of calls and the relations between two states of a table\<close>

text \<open>The pair that identifies a moderator: the name and the key of the meeting.\<close>

definition participant_key :: "bbb_user \<Rightarrow> string \<times> nat" where
  "participant_key u = (full_name u, bbb_meeting_id u)"

text \<open>Any sequence of sightings: \<open>get_attendee\<close> for each attendee element with the key of
  its meeting, in the order given (within one run or over several).\<close>

definition sightings :: "(xml \<times> nat) list \<Rightarrow> state \<Rightarrow> state" where
  "sightings xs s = fold (\<lambda>(attendee, k) s. fst (get_attendee attendee k '''' '''' s)) xs s"

text \<open>Successive runs of the command, each with its own settings, answers and task.\<close>

fun runs :: "(env \<times> string) list \<Rightarrow> state \<Rightarrow> state" where
  "runs [] s = s"
| "runs ((ev, task) # rest) s = runs rest (fst (handle ev task s))"

text \<open>What the discovery may do to a row of the meetings (raise \<open>recorded\<close>) and what
  the poller may do to it when \<open>I\<close> holds the internal ids it asks for.\<close>

abbreviation recorded_raised :: "meeting \<Rightarrow> meeting \<Rightarrow> bool" where
  "recorded_raised a b \<equiv> b = a \<or> (\<not> recorded a \<and> b = a\<lparr>recorded := True\<rparr>)"

abbreviation poll_row :: "string set \<Rightarrow> meeting \<Rightarrow> meeting \<Rightarrow> bool" where
  "poll_row I a b \<equiv>
     internal_meeting_id b = internal_meeting_id a
     \<and> (recording_available a \<longrightarrow> recording_available b)
     \<and> (internal_meeting_id a \<notin> I \<longrightarrow> b = a)"

abbreviation poll_step :: "string set \<Rightarrow> state \<Rightarrow> state \<Rightarrow> bool" where
  "poll_step I s s' \<equiv>
     bbb_users s' = bbb_users s \<and> pod_users s' = pod_users s \<and> videos s' = videos s
     \<and> moved s' = moved s \<and> encoded s' = encoded s
     \<and> length (meetings s') = length (meetings s)
     \<and> (\<forall>i<length (meetings s). poll_row I (meetings s ! i) (meetings s' ! i))"

subsection \<open>Example inputs\<close>

text \<open>The settings with their default values, a remote server that does not answer, an
  empty directory and no failing move or submission.\<close>

definition default_env :: env where
  "default_env =
     \<lparr>BBB_USERNAME_FORMAT = ''first_name last_name'',
      VIDEO_ALLOWED_EXTENSIONS =
        [''3gp'', ''avi'', ''divx'', ''flv'', ''m2p'', ''m4v'', ''mkv'', ''mov'', ''mp4'',
         ''mpeg'', ''mpg'', ''mts'', ''wmv'', ''mp3'', ''ogg'', ''wav'', ''wma'', ''webm'', ''ts''],
      DEFAULT_BBB_PATH = ''/data/bbb-recorder/media/'',
      DEFAULT_BBB_TYPE_ID = 1,
      type_exists = True,
      getMeetings = Inl RequestError,
      getRecordings = (\<lambda>meeting_id_arg. Inl RequestError),
      now = 1000000,
      parse_date = (\<lambda>d. if d = ''bad'' then None else Some 900000),
      drop_directory = Dir [] [],
      rename_fails = (\<lambda>path. False),
      encode_fails = (\<lambda>video_id. False)\<rparr>"

definition empty_state :: state where
  "empty_state =
     \<lparr>meetings = [], bbb_users = [], pod_users = [], videos = [], moved = [], encoded = []\<rparr>"

text \<open>The elements of the answers of the remote server.\<close>

definition attendee_elem :: "string \<Rightarrow> string \<Rightarrow> xml" where
  "attendee_elem fullName role_data =
     Element ''attendee'' [Element ''fullName'' [Text fullName], Element ''role'' [Text role_data]]"

definition meeting_elem :: "string \<Rightarrow> string \<Rightarrow> string \<Rightarrow> string \<Rightarrow> xml list \<Rightarrow> xml" where
  "meeting_elem meetingID internalMeetingID createDate recording attendees =
     Element ''meeting''
       [Element ''meetingName'' [Text ''Course''],
        Element ''meetingID'' [Text meetingID],
        Element ''internalMeetingID'' [Text internalMeetingID],
        Element ''createDate'' [Text createDate],
        Element ''recording'' [Text recording],
        Element ''attendees'' attendees]"

definition response :: "xml list \<Rightarrow> xml" where
  "response children =
     Element ''#document'' [Element ''response'' (Element ''returncode'' [Text ''SUCCESS''] # children)]"

definition playback_elem :: "string \<Rightarrow> string \<Rightarrow> xml" where
  "playback_elem url_data image_data =
     Element ''playback'' [Element ''url'' [Text url_data], Element ''image'' [Text image_data]]"

definition recording_elem :: "string \<Rightarrow> xml list \<Rightarrow> xml" where
  "recording_elem internalMeetingID playbacks =
     Element ''recording'' (Element ''internalMeetingID'' [Text internalMeetingID] # playbacks)"

text \<open>A meeting as the discovery stores it, and the moderator Marie Curie.\<close>

definition known_meeting :: "string \<Rightarrow> string \<Rightarrow> int \<Rightarrow> bool \<Rightarrow> meeting" where
  "known_meeting meetingID internalMeetingID date rec =
     \<lparr>meeting_id = meetingID, internal_meeting_id = internalMeetingID,
      meeting_name = ''Course'', session_date = date, encoding_step = 0,
      recorded = rec, recording_available = False, recording_url = None,
      thumbnail_url = None, encoded_by_id = None\<rparr>"

definition marie_curie :: xml where "marie_curie = attendee_elem ''Marie Curie'' ''MODERATOR''"

text \<open>A remote server that answers with no meeting and no recording.\<close>

definition quiet_env :: env where
  "quiet_env = default_env\<lparr>getMeetings := Inr (response []),
                           getRecordings := (\<lambda>meeting_id_arg. Inr (response []))\<rparr>"

text \<open>The meeting M1 is known and recorded; the server then reports it as not
  recording.\<close>

definition state_M1 :: state where
  "state_M1 = empty_state\<lparr>meetings := [known_meeting ''m'' ''M1'' 900000 True]\<rparr>"

definition meeting_M1_not_recording :: xml where
  "meeting_M1_not_recording = meeting_elem ''m'' ''M1'' ''2020-05-01'' ''false'' []"

definition env_M1_not_recording :: env where
  "env_M1_not_recording = default_env\<lparr>getMeetings := Inr (response [meeting_M1_not_recording])\<rparr>"

text \<open>A meeting of long ago and one of today (the clock of \<open>default_env\<close> is at
  1000000 seconds).\<close>

definition state_old_and_new :: state where
  "state_old_and_new = empty_state\<lparr>meetings := [known_meeting ''a'' ''OLD'' 100 True,
                                  known_meeting ''b'' ''NEW'' 900000 True]\<rparr>"

text \<open>The recording of M1 is available with its URL; the server then offers another
  recording for it.\<close>

definition state_available_M1 :: state where
  "state_available_M1 = empty_state\<lparr>meetings :=
          [(known_meeting ''m'' ''M1'' 900000 True)
             \<lparr>recording_available := True, recording_url := Some ''U0'',
              thumbnail_url := Some ''T0''\<rparr>]\<rparr>"

definition env_M1_new_recording :: env where
  "env_M1_new_recording = default_env
     \<lparr>getMeetings := Inr (response [meeting_elem ''m'' ''M1'' ''2020-05-01'' ''true'' [marie_curie]]),
      getRecordings := (\<lambda>meeting_id_arg.
         Inr (response [recording_elem ''M1'' [playback_elem ''U1'' ''T1'']]))\<rparr>"

text \<open>The account Jean Dupont and one moderator not matched yet.\<close>

definition dupont_state :: "string \<Rightarrow> state" where
  "dupont_state fullName =
     empty_state
       \<lparr>bbb_users := [\<lparr>full_name = fullName, role = ''MODERATOR'', bbb_meeting_id = 1,
                        user_id = None, username = None\<rparr>],
        pod_users := [\<lparr>pod_username = ''jdupont'', first_name = ''Jean'',
                        last_name = ''Dupont''\<rparr>]\<rparr>"

text \<open>A recording of M1 with two playback entries.\<close>

definition recording_two_playbacks :: xml where
  "recording_two_playbacks = recording_elem ''M1'' [playback_elem ''U1'' ''T1'', playback_elem ''U2'' ''T2'']"

text \<open>A recording of M1 with one playback entry that holds two formats, as the server
  documents it, and one whose playback entry has a URL and no thumbnail.\<close>

definition recording_two_formats :: xml where
  "recording_two_formats = recording_elem ''M1''
     [Element ''playback''
        [Element ''format'' [Element ''url'' [Text ''U1''], Element ''image'' [Text ''T1'']],
         Element ''format'' [Element ''url'' [Text ''U2''], Element ''image'' [Text ''T2'']]]]"

definition recording_url_only :: xml where
  "recording_url_only = recording_elem ''M1''
     [Element ''playback'' [Element ''url'' [Text ''U1'']]]"

text \<open>A meeting element that lacks its internal id, and an answer made of it and of a
  meeting whose date \<open>parse_date\<close> of \<open>default_env\<close> rejects.\<close>

definition meeting_without_internal_id :: xml where
  "meeting_without_internal_id =
     Element ''meeting''
       [Element ''meetingName'' [Text ''Course''],
        Element ''meetingID'' [Text ''m''],
        Element ''createDate'' [Text ''2020-05-01''],
        Element ''recording'' [Text ''true'']]"

definition env_bad_meetings :: env where
  "env_bad_meetings = quiet_env\<lparr>getMeetings := Inr (response
           [meeting_without_internal_id,
            meeting_elem ''m'' ''M1'' ''bad'' ''true'' []])\<rparr>"

text \<open>An attendee without a name, and a recording without its internal id in the
  answer of the server.\<close>

definition attendee_without_name :: xml where
  "attendee_without_name = Element ''attendee'' [Element ''role'' [Text ''MODERATOR'']]"

definition recording_without_internal_id :: xml where
  "recording_without_internal_id = Element ''recording'' [playback_elem ''U1'' ''T1'']"

definition env_bad_recording :: env where
  "env_bad_recording = quiet_env\<lparr>getRecordings := (\<lambda>meeting_id_arg.
      Inr (response [recording_without_internal_id]))\<rparr>"

text \<open>Two files of two known meetings in the directory; the move of the first one
  fails when \<open>failing\<close> is set, the submission of the first video when \<open>refusing\<close> is.\<close>

definition state_a_b :: state where
  "state_a_b = empty_state\<lparr>meetings := [known_meeting ''ma'' ''a'' 900000 False,
                                  known_meeting ''mb'' ''b'' 900000 False]\<rparr>"

definition env_two_files :: "bool \<Rightarrow> bool \<Rightarrow> env" where
  "env_two_files failing refusing = quiet_env
     \<lparr>drop_directory := Dir [''a.mp4'', ''b.mp4''] [],
      rename_fails := (\<lambda>path. failing \<and> path = ''/data/bbb-recorder/media/a.mp4''),
      encode_fails := (\<lambda>video_id. refusing \<and> video_id = 1)\<rparr>"

text \<open>The meeting whose internal id is \<^verbatim>\<open>a.mp4\<close>.\<close>

definition state_a_mp4 :: state where
  "state_a_mp4 = empty_state\<lparr>meetings := [known_meeting ''m'' ''a.mp4'' 900000 False]\<rparr>"

section \<open>Properties\<close>

subsection \<open>Files without a dot\<close>

lemma str_split_no_sep: "sep \<notin> set cs \<Longrightarrow> str_split sep cs = [cs]"
  by (induction cs) auto

lemma extension_of_no_dot: "CHR ''.'' \<notin> set filename \<Longrightarrow> extension_of filename = filename"
  by (simp add: extension_of_def str_split_no_sep)

lemma process_directory_append:
  "process_directory ev (before @ files) html message s =
     (case process_directory ev before html message s of
        (s', Inl e) \<Rightarrow> (s', Inl e)
      | (s', Inr (html', message')) \<Rightarrow> process_directory ev files html' message' s')"
  by (induction before arbitrary: html message s)
     (auto simp: Let_def split: prod.splits sum.splits)

text \<open>
  Claim C10. A file of the directory whose name has no dot is its own extension, and
  \<open>process_directory\<close> passes over it: wherever it stands among the files, the result
  (the database, the files moved, the videos, the messages) is the one without it, also
  when the name is an allowed extension. Alone in its directory it leaves everything as
  it was.
\<close>

theorem C10_dotless_file_skipped:
  assumes "CHR ''.'' \<notin> set filename"
  shows "process_directory ev (before @ filename # files) html message s =
           process_directory ev (before @ files) html message s
         \<and> process_directory ev [filename] html message s = (s, Inr (html, message))"
proof -
  have skip: "process_directory ev (filename # fs) h m t = process_directory ev fs h m t"
    for fs h m t
    using assms by (simp add: extension_of_no_dot)
  have "process_directory ev (before @ filename # files) html message s =
         process_directory ev (before @ files) html message s"
    by (simp del: process_directory.simps
             add: process_directory_append [of ev before] skip split: prod.splits sum.splits)
  moreover have "process_directory ev [filename] html message s = (s, Inr (html, message))"
    by (simp only: skip process_directory.simps(1))
  ultimately show ?thesis by simp
qed

theorem C10_dotless_file_skipped_witness:
  "CHR ''.'' \<notin> set ''mp4'' \<and> ''mp4'' \<in> set (VIDEO_ALLOWED_EXTENSIONS default_env)
   \<and> process_directory default_env ([] @ ''mp4'' # []) '''' '''' empty_state =
       process_directory default_env ([] @ []) '''' '''' empty_state
   \<and> process_directory default_env [''mp4''] '''' '''' empty_state =
       (empty_state, Inr ('''', ''''))"
proof -
  have h: "CHR ''.'' \<notin> set ''mp4''" by simp
  have a: "''mp4'' \<in> set (VIDEO_ALLOWED_EXTENSIONS default_env)"
    by (simp add: default_env_def)
  show ?thesis
    using h a C10_dotless_file_skipped [OF h, of default_env "[]" "[]" "''''" "''''" empty_state]
    by blast
qed

subsection \<open>Looking up and saving rows\<close>

text \<open>The definitions of the example elements.\<close>

lemmas xml_examples = attendee_elem_def meeting_elem_def response_def playback_elem_def
  recording_elem_def known_meeting_def marie_curie_def tag_data_def

lemma first_from_Some:
  "first_from k P xs = Some (j, x) \<Longrightarrow> k \<le> j \<and> j < k + length xs \<and> xs ! (j - k) = x \<and> P x"
proof (induction xs arbitrary: k)
  case Nil
  then show ?case by simp
next
  case (Cons y ys)
  show ?case
  proof (cases "P y")
    case True
    with Cons.prems show ?thesis by auto
  next
    case False
    with Cons.prems have "first_from (Suc k) P ys = Some (j, x)" by simp
    from Cons.IH [OF this]
    have ih: "Suc k \<le> j" "j < Suc k + length ys" "ys ! (j - Suc k) = x" "P x" by auto
    then have "j - k = Suc (j - Suc k)" by arith
    with ih show ?thesis by simp
  qed
qed

lemma first_from_None: "first_from k P xs = None \<longleftrightarrow> (\<forall>x\<in>set xs. \<not> P x)"
  by (induction xs arbitrary: k) auto

lemma first_Some:
  "first P xs = Some (j, x) \<Longrightarrow> 0 < j \<and> j \<le> length xs \<and> xs ! (j - 1) = x \<and> P x"
  using first_from_Some [of 1 P xs j x] by (auto simp: first_def)

lemma first_None: "first P xs = None \<longleftrightarrow> (\<forall>x\<in>set xs. \<not> P x)"
  by (simp add: first_def first_from_None)

lemma length_save [simp]: "length (save k r xs) = length xs"
  by (simp add: save_def)

lemma nth_save:
  "i < length xs \<Longrightarrow> save k r xs ! i = (if 0 < k \<and> i = k - 1 then r else xs ! i)"
  by (simp add: save_def)

subsection \<open>Moderators are stored once\<close>

lemma get_attendee_try_cases:
  "get_attendee_try a k s = (s, None) \<or> (\<exists>e. get_attendee_try a k s = (s, Some e)) \<or>
   (\<exists>fn. tag_data ''fullName'' a = Inr fn \<and> tag_data ''role'' a = Inr ''MODERATOR'' \<and>
      (\<forall>u\<in>set (bbb_users s). participant_key u \<noteq> (fn, k)) \<and>
      get_attendee_try a k s =
        (s\<lparr>bbb_users := bbb_users s @
             [\<lparr>full_name = fn, role = ''MODERATOR'', bbb_meeting_id = k,
               user_id = None, username = None\<rparr>]\<rparr>, None))"
  by (auto simp: get_attendee_try_def first_None participant_key_def split: sum.splits option.splits)


lemma get_attendee_state:
  "fst (get_attendee a k html message s) = fst (get_attendee_try a k s)"
  by (simp add: get_attendee_def Let_def split: prod.splits option.splits)

lemma get_attendee_keeps_rows:
  "prefix (bbb_users s) (bbb_users (fst (get_attendee a k html message s)))"
  using get_attendee_try_cases [of a k s] by (auto simp: get_attendee_state)

lemma get_attendee_distinct:
  assumes "distinct (map participant_key (bbb_users s))"
  shows "distinct (map participant_key (bbb_users (fst (get_attendee a k html message s))))"
  using get_attendee_try_cases [of a k s] assms
  by (auto simp: get_attendee_state participant_key_def)

lemma get_attendee_moderator_present:
  assumes "tag_data ''fullName'' a = Inr fn" and "tag_data ''role'' a = Inr ''MODERATOR''"
  shows "(fn, k) \<in> participant_key ` set (bbb_users (fst (get_attendee a k html message s)))"
proof (cases "first (\<lambda>u. full_name u = fn \<and> bbb_meeting_id u = k) (bbb_users s)")
  case None
  with assms show ?thesis
    by (simp add: get_attendee_state get_attendee_try_def participant_key_def)
next
  case (Some r)
  obtain j u where r: "r = (j, u)" by (cases r)
  from first_Some [OF Some [unfolded r]]
  have "u \<in> set (bbb_users s)" "participant_key u = (fn, k)"
    by (auto simp: participant_key_def intro: nth_mem) 
  then have "(fn, k) \<in> participant_key ` set (bbb_users s)" by force
  with assms Some show ?thesis
    by (simp add: get_attendee_state get_attendee_try_def r)
qed

lemma get_attendee_count:
  assumes "length (filter (\<lambda>u. participant_key u = key) (bbb_users s)) \<le> 1"
  shows "length (filter (\<lambda>u. participant_key u = key)
                        (bbb_users (fst (get_attendee a k html message s)))) \<le> 1"
proof -
  from get_attendee_try_cases [of a k s]
  consider (same) "fst (get_attendee_try a k s) = s"
    | (new) fn where "\<forall>u\<in>set (bbb_users s). participant_key u \<noteq> (fn, k)"
        "bbb_users (fst (get_attendee_try a k s)) = bbb_users s @
             [\<lparr>full_name = fn, role = ''MODERATOR'', bbb_meeting_id = k,
               user_id = None, username = None\<rparr>]"
    by force
  then show ?thesis
  proof cases
    case same
    with assms show ?thesis by (simp add: get_attendee_state)
  next
    case new
    show ?thesis
    proof (cases "key = (fn, k)")
      case True
      with new(1) have "filter (\<lambda>u. participant_key u = key) (bbb_users s) = []"
        by (simp add: filter_empty_conv)
      with new(2) show ?thesis by (simp add: get_attendee_state)
    next
      case False
      with new(2) assms show ?thesis
        by (auto simp: get_attendee_state participant_key_def)
    qed
  qed
qed

lemma sightings_keeps_rows: "prefix (bbb_users s) (bbb_users (sightings xs s))"
proof (induction xs arbitrary: s)
  case Nil
  show ?case by (simp add: sightings_def)
next
  case (Cons x xs)
  obtain a k where x: "x = (a, k)" by (cases x)
  have "sightings (x # xs) s = sightings xs (fst (get_attendee a k '''' '''' s))"
    by (simp add: sightings_def x)
  with Cons [of "fst (get_attendee a k '''' '''' s)"]
       get_attendee_keeps_rows [of s a k "''''" "''''"]
  show ?case by (metis prefix_order.order_trans)
qed

lemma sightings_count:
  "length (filter (\<lambda>u. participant_key u = key) (bbb_users s)) \<le> 1 \<Longrightarrow>
   length (filter (\<lambda>u. participant_key u = key) (bbb_users (sightings xs s))) \<le> 1"
proof (induction xs arbitrary: s)
  case Nil
  then show ?case by (simp add: sightings_def)
next
  case (Cons x xs)
  obtain a k where x: "x = (a, k)" by (cases x)
  have "sightings (x # xs) s = sightings xs (fst (get_attendee a k '''' '''' s))"
    by (simp add: sightings_def x)
  with Cons.IH [OF get_attendee_count [OF Cons.prems]] show ?case by simp
qed

text \<open>
  Claim C7. Start from a table with at most one row for the name and the meeting. After
  any sequence of sightings in which the attendee, with role MODERATOR, is processed for
  the meeting with key \<open>k\<close> at least once (and as often as one likes, among any other
  sightings), the table has exactly one row for that name and that meeting, and the rows
  that were there before still stand first and unchanged: a sighting only ever appends.
  That no name occurs twice for a meeting is kept by every run of the command
  (\<open>runs_participants\<close>), the matcher changing only the link of a row.
\<close>

theorem C7_one_participant_per_moderator:
  assumes "length (filter (\<lambda>u. full_name u = fullName \<and> bbb_meeting_id u = k)
                          (bbb_users s)) \<le> 1"
    and "tag_data ''fullName'' attendee = Inr fullName"
    and "tag_data ''role'' attendee = Inr ''MODERATOR''"
    and "(attendee, k) \<in> set xs"
  shows "length (filter (\<lambda>u. full_name u = fullName \<and> bbb_meeting_id u = k)
                        (bbb_users (sightings xs s))) = 1
         \<and> prefix (bbb_users s) (bbb_users (sightings xs s))"
proof -
  obtain ys zs where xs: "xs = ys @ (attendee, k) # zs"
    using assms(4) by (meson split_list)
  let ?s1 = "sightings ys s"
  let ?s2 = "fst (get_attendee attendee k '''' '''' ?s1)"
  let ?P = "\<lambda>u. participant_key u = (fullName, k)"
  have run: "sightings xs s = sightings zs ?s2"
    by (simp add: xs sightings_def)
  have "(fullName, k) \<in> participant_key ` set (bbb_users ?s2)"
    using assms(2,3) by (rule get_attendee_moderator_present)
  moreover have "set (bbb_users ?s2) \<subseteq> set (bbb_users (sightings zs ?s2))"
    using sightings_keeps_rows [of ?s2 zs] by (rule set_mono_prefix)
  ultimately obtain u where "u \<in> set (bbb_users (sightings xs s))" "?P u"
    unfolding run by auto
  then have "filter ?P (bbb_users (sightings xs s)) \<noteq> []"
    by (auto simp: filter_empty_conv)
  then have "1 \<le> length (filter ?P (bbb_users (sightings xs s)))"
    by (simp add: Suc_leI)
  moreover have "length (filter ?P (bbb_users s)) \<le> 1"
    using assms(1) by (simp add: participant_key_def)
  then have "length (filter ?P (bbb_users (sightings xs s))) \<le> 1"
    by (rule sightings_count)
  ultimately have "length (filter ?P (bbb_users (sightings xs s))) = 1" by simp
  then show ?thesis
    using sightings_keeps_rows [of s xs] by (simp add: participant_key_def)
qed

theorem C7_one_participant_per_moderator_witness:
  "length (filter (\<lambda>u. full_name u = ''Marie Curie'' \<and> bbb_meeting_id u = 1)
                  (bbb_users empty_state)) \<le> 1
   \<and> tag_data ''fullName'' marie_curie = Inr ''Marie Curie''
   \<and> tag_data ''role'' marie_curie = Inr ''MODERATOR''
   \<and> (marie_curie, 1::nat) \<in> set [(marie_curie, 1), (marie_curie, 1)]
   \<and> length (filter (\<lambda>u. full_name u = ''Marie Curie'' \<and> bbb_meeting_id u = 1)
                (bbb_users (sightings [(marie_curie, 1), (marie_curie, 1)] empty_state))) = 1
   \<and> prefix (bbb_users empty_state) (bbb_users (sightings [(marie_curie, 1), (marie_curie, 1)] empty_state))"
proof -
  have 1: "length (filter (\<lambda>u. full_name u = ''Marie Curie'' \<and> bbb_meeting_id u = 1)
                  (bbb_users empty_state)) \<le> 1"
    by (simp add: empty_state_def)
  have 2: "tag_data ''fullName'' marie_curie = Inr ''Marie Curie''"
    by (simp add: xml_examples)
  have 3: "tag_data ''role'' marie_curie = Inr ''MODERATOR''"
    by (simp add: xml_examples)
  have 4: "(marie_curie, 1) \<in> set [(marie_curie, 1), (marie_curie, 1::nat)]" by simp
  from C7_one_participant_per_moderator [OF 1 2 3 4] 1 2 3 4 show ?thesis by blast
qed

subsection \<open>The discovery only raises the recorded flag\<close>

lemma get_attendee_frame:
  "meetings (fst (get_attendee a k html message s)) = meetings s"
  "pod_users (fst (get_attendee a k html message s)) = pod_users s"
  "videos (fst (get_attendee a k html message s)) = videos s"
  "moved (fst (get_attendee a k html message s)) = moved s"
  "encoded (fst (get_attendee a k html message s)) = encoded s"
  using get_attendee_try_cases [of a k s] by (auto simp: get_attendee_state)

lemma get_attendees_frame:
  "meetings (get_attendees as k html message s) = meetings s"
  "pod_users (get_attendees as k html message s) = pod_users s"
  "videos (get_attendees as k html message s) = videos s"
  "moved (get_attendees as k html message s) = moved s"
  "encoded (get_attendees as k html message s) = encoded s"
  unfolding get_attendees_def
  by (induction as arbitrary: s) (simp_all add: get_attendee_frame)

lemma get_meeting_state:
  "fst (get_meeting ev meeting html message s) = fst (get_meeting_try ev meeting html message s)"
  by (simp add: get_meeting_def Let_def split: prod.splits option.splits)

lemma get_meeting_try_meetings:
  "meetings (fst (get_meeting_try ev meeting html message s)) = meetings s
   \<or> (\<exists>k oMeeting. first (\<lambda>m. Inr (internal_meeting_id m) = tag_data ''internalMeetingID'' meeting)
                       (meetings s) = Some (k, oMeeting)
        \<and> \<not> recorded oMeeting \<and> tag_data ''recording'' meeting = Inr ''true''
        \<and> meetings (fst (get_meeting_try ev meeting html message s)) =
            save k (oMeeting\<lparr>recorded := True\<rparr>) (meetings s))
   \<or> (\<exists>new. (\<forall>m\<in>set (meetings s). internal_meeting_id m \<noteq> internal_meeting_id new)
        \<and> \<not> recording_available new
        \<and> meetings (fst (get_meeting_try ev meeting html message s)) = meetings s @ [new])"
  by (auto simp: get_meeting_try_def get_attendees_frame first_None Let_def
           split: sum.splits option.splits)


lemma get_meeting_rows:
  assumes "i < length (meetings s)"
  shows "i < length (meetings (fst (get_meeting ev meeting html message s)))
         \<and> recorded_raised (meetings s ! i) (meetings (fst (get_meeting ev meeting html message s)) ! i)"
proof -
  let ?s' = "fst (get_meeting_try ev meeting html message s)"
  from get_meeting_try_meetings [of ev meeting html message s]
  consider (same) "meetings ?s' = meetings s"
    | (upd) k oMeeting where
        "first (\<lambda>m. Inr (internal_meeting_id m) = tag_data ''internalMeetingID'' meeting)
               (meetings s) = Some (k, oMeeting)"
        "\<not> recorded oMeeting" "meetings ?s' = save k (oMeeting\<lparr>recorded := True\<rparr>) (meetings s)"
    | (new) n where "meetings ?s' = meetings s @ [n]"
    by blast
  then have "i < length (meetings ?s') \<and> recorded_raised (meetings s ! i) (meetings ?s' ! i)"
  proof cases
    case same
    with assms show ?thesis by simp
  next
    case upd
    from first_Some [OF upd(1)] have "meetings s ! (k - 1) = oMeeting" by simp
    with upd(2,3) assms show ?thesis by (auto simp: nth_save)
  next
    case new
    with assms show ?thesis by (simp add: nth_append)
  qed
  then show ?thesis by (simp add: get_meeting_state)
qed

lemma get_meeting_distinct:
  assumes "distinct (map internal_meeting_id (meetings s))"
  shows "distinct (map internal_meeting_id (meetings (fst (get_meeting ev meeting html message s))))"
proof -
  let ?s' = "fst (get_meeting_try ev meeting html message s)"
  from get_meeting_try_meetings [of ev meeting html message s]
  consider (same) "meetings ?s' = meetings s"
    | (upd) k oMeeting where
        "first (\<lambda>m. Inr (internal_meeting_id m) = tag_data ''internalMeetingID'' meeting)
               (meetings s) = Some (k, oMeeting)"
        "meetings ?s' = save k (oMeeting\<lparr>recorded := True\<rparr>) (meetings s)"
    | (new) n where "\<forall>m\<in>set (meetings s). internal_meeting_id m \<noteq> internal_meeting_id n"
        "meetings ?s' = meetings s @ [n]"
    by blast
  then have "distinct (map internal_meeting_id (meetings ?s'))"
  proof cases
    case same
    with assms show ?thesis by simp
  next
    case upd
    from first_Some [OF upd(1)]
    have k: "0 < k" "k \<le> length (meetings s)" "meetings s ! (k - 1) = oMeeting" by simp_all
    have "map internal_meeting_id (save k (oMeeting\<lparr>recorded := True\<rparr>) (meetings s))
          = map internal_meeting_id (meetings s)"
      using k by (auto simp: list_eq_iff_nth_eq nth_save)
    with upd(2) assms show ?thesis by simp
  next
    case new
    with assms show ?thesis by auto
  qed
  then show ?thesis by (simp add: get_meeting_state)
qed

lemma fold_get_meeting_rows:
  assumes "i < length (meetings s)"
  shows "i < length (meetings (fold (\<lambda>meeting s. fst (get_meeting ev meeting html message s)) ms s))
         \<and> recorded_raised (meetings s ! i)
              (meetings (fold (\<lambda>meeting s. fst (get_meeting ev meeting html message s)) ms s) ! i)"
  using assms
proof (induction ms arbitrary: s)
  case Nil
  then show ?case by simp
next
  case (Cons x ms)
  let ?s1 = "fst (get_meeting ev x html message s)"
  from get_meeting_rows [OF Cons.prems, of ev x html message]
  have 1: "i < length (meetings ?s1)" "recorded_raised (meetings s ! i) (meetings ?s1 ! i)"
    by simp_all
  from Cons.IH [OF 1(1)] 1(2) show ?case by auto
qed

lemma fold_get_meeting_distinct:
  "distinct (map internal_meeting_id (meetings s)) \<Longrightarrow>
   distinct (map internal_meeting_id
      (meetings (fold (\<lambda>meeting s. fst (get_meeting ev meeting html message s)) ms s)))"
  by (induction ms arbitrary: s) (simp_all add: get_meeting_distinct)

lemma get_bbb_meetings_by_xml_rows:
  assumes "i < length (meetings s)"
  shows "i < length (meetings (fst (get_bbb_meetings_by_xml ev html message s)))
         \<and> recorded_raised (meetings s ! i)
              (meetings (fst (get_bbb_meetings_by_xml ev html message s)) ! i)"
  using assms fold_get_meeting_rows [OF assms]
  by (simp add: get_bbb_meetings_by_xml_def Let_def split: sum.splits prod.splits)

lemma get_bbb_meetings_by_xml_distinct:
  "distinct (map internal_meeting_id (meetings s)) \<Longrightarrow>
   distinct (map internal_meeting_id (meetings (fst (get_bbb_meetings_by_xml ev html message s))))"
  using fold_get_meeting_distinct
  by (simp add: get_bbb_meetings_by_xml_def Let_def split: sum.splits prod.splits)

text \<open>
  Claim C9. A meeting that is known with \<open>recorded\<close> true keeps its whole row, the flag
  included, through \<open>get_meeting\<close> of any meeting element (whatever its \<^verbatim>\<open>recording\<close>
  field says, \<^verbatim>\<open>false\<close> or anything else) and through the whole discovery
  \<open>get_bbb_meetings_by_xml\<close>.
\<close>

theorem C9_recorded_never_reset:
  assumes "i < length (meetings s)" and "recorded (meetings s ! i)"
  shows "i < length (meetings (fst (get_meeting ev meeting html message s)))
         \<and> meetings (fst (get_meeting ev meeting html message s)) ! i = meetings s ! i
         \<and> i < length (meetings (fst (get_bbb_meetings_by_xml ev html message s)))
         \<and> meetings (fst (get_bbb_meetings_by_xml ev html message s)) ! i = meetings s ! i"
  using get_meeting_rows [OF assms(1), of ev meeting html message]
        get_bbb_meetings_by_xml_rows [OF assms(1), of ev html message] assms(2)
  by blast


theorem C9_recorded_never_reset_witness:
  "0 < length (meetings state_M1) \<and> recorded (meetings state_M1 ! 0)
   \<and> internal_meeting_id (meetings state_M1 ! 0) = ''M1''
   \<and> tag_data ''internalMeetingID'' meeting_M1_not_recording = Inr ''M1''
   \<and> tag_data ''recording'' meeting_M1_not_recording = Inr ''false''
   \<and> meetings (fst (get_meeting env_M1_not_recording meeting_M1_not_recording '''' '''' state_M1)) ! 0 = meetings state_M1 ! 0
   \<and> meetings (fst (get_bbb_meetings_by_xml env_M1_not_recording '''' '''' state_M1)) ! 0 = meetings state_M1 ! 0"
proof -
  have 1: "0 < length (meetings state_M1)" by (simp add: state_M1_def empty_state_def)
  have 2: "recorded (meetings state_M1 ! 0)" by (simp add: state_M1_def empty_state_def known_meeting_def)
  have 3: "internal_meeting_id (meetings state_M1 ! 0) = ''M1''"
    by (simp add: state_M1_def empty_state_def known_meeting_def)
  have 4: "tag_data ''internalMeetingID'' meeting_M1_not_recording = Inr ''M1''"
    by (simp add: meeting_M1_not_recording_def meeting_elem_def tag_data_def)
  have 5: "tag_data ''recording'' meeting_M1_not_recording = Inr ''false''"
    by (simp add: meeting_M1_not_recording_def meeting_elem_def tag_data_def)
  from C9_recorded_never_reset [OF 1 2, of env_M1_not_recording meeting_M1_not_recording "''''" "''''"] 1 2 3 4 5
  show ?thesis by blast
qed

subsection \<open>What the poller may change\<close>

lemma get_recording_state:
  "fst (get_recording recording iid html message s) = fst (get_recording_try recording iid s)"
  by (simp add: get_recording_def Let_def split: prod.splits option.splits)

lemma get_recording_try_cases:
  "get_recording_try recording iid s = (s, None) \<or> (\<exists>e. get_recording_try recording iid s = (s, Some e))
   \<or> (\<exists>k oMeeting u t. first (\<lambda>m. internal_meeting_id m = iid) (meetings s) = Some (k, oMeeting)
        \<and> get_recording_try recording iid s =
            (s\<lparr>meetings := save k (oMeeting\<lparr>recording_available := True, recording_url := Some u,
                                            thumbnail_url := Some t\<rparr>) (meetings s)\<rparr>, None))"
  by (auto simp: get_recording_try_def split: sum.splits option.splits prod.splits)

lemma get_recording_frame:
  "bbb_users (fst (get_recording recording iid html message s)) = bbb_users s"
  "pod_users (fst (get_recording recording iid html message s)) = pod_users s"
  "videos (fst (get_recording recording iid html message s)) = videos s"
  "moved (fst (get_recording recording iid html message s)) = moved s"
  "encoded (fst (get_recording recording iid html message s)) = encoded s"
  "length (meetings (fst (get_recording recording iid html message s))) = length (meetings s)"
  using get_recording_try_cases [of recording iid s] by (auto simp: get_recording_state)

lemma get_recording_rows:
  assumes "i < length (meetings s)"
  shows "poll_row {iid} (meetings s ! i) (meetings (fst (get_recording recording iid html message s)) ! i)"
proof -
  let ?s' = "fst (get_recording_try recording iid s)"
  from get_recording_try_cases [of recording iid s]
  consider (same) "?s' = s"
    | (upd) k oMeeting u t where
        "first (\<lambda>m. internal_meeting_id m = iid) (meetings s) = Some (k, oMeeting)"
        "meetings ?s' = save k (oMeeting\<lparr>recording_available := True, recording_url := Some u,
                                            thumbnail_url := Some t\<rparr>) (meetings s)"
    by force
  then have "poll_row {iid} (meetings s ! i) (meetings ?s' ! i)"
  proof cases
    case same
    then show ?thesis by simp
  next
    case upd
    from first_Some [OF upd(1)]
    have "meetings s ! (k - 1) = oMeeting" "internal_meeting_id oMeeting = iid" by simp_all
    with upd(2) assms show ?thesis by (auto simp: nth_save)
  qed
  then show ?thesis by (simp add: get_recording_state)
qed


lemma poll_step_trans:
  assumes "poll_step I s s1" and "poll_step J s1 s2" and "I \<subseteq> K" and "J \<subseteq> K"
  shows "poll_step K s s2"
proof -
  have "poll_row K (meetings s ! i) (meetings s2 ! i)" if i: "i < length (meetings s)" for i
  proof -
    from assms(1) i have 1: "poll_row I (meetings s ! i) (meetings s1 ! i)" by blast
    from assms(1,2) i have 2: "poll_row J (meetings s1 ! i) (meetings s2 ! i)" by simp
    from 1 2 assms(3,4) show ?thesis by auto
  qed
  with assms(1,2) show ?thesis by simp
qed

lemma get_recording_step: "poll_step {iid} s (fst (get_recording recording iid html message s))"
  using get_recording_rows [where s = s and iid = iid]
  by (simp add: get_recording_frame)

lemma fold_get_recording_step:
  "poll_step {iid} s (fold (\<lambda>recording s. fst (get_recording recording iid html message s)) rs s)"
proof (induction rs arbitrary: s)
  case Nil
  show ?case by simp
next
  case (Cons r rs)
  let ?s1 = "fst (get_recording r iid html message s)"
  have "poll_step {iid} s (fold (\<lambda>recording s. fst (get_recording recording iid html message s)) rs ?s1)"
    using get_recording_step Cons.IH by (rule poll_step_trans) simp_all
  then show ?case by simp
qed

lemma get_bbb_recording_by_xml_step:
  "poll_step {iid} s (fst (get_bbb_recording_by_xml ev mid iid html message s))"
proof -
  have "fst (get_bbb_recording_by_xml ev mid iid html message s) = s
    \<or> (\<exists>h m rs. fst (get_bbb_recording_by_xml ev mid iid html message s) =
          fold (\<lambda>recording s. fst (get_recording recording iid h m s)) rs s)"
    by (auto simp: get_bbb_recording_by_xml_def Let_def split: sum.splits prod.splits)
  then show ?thesis using fold_get_recording_step [where s = s and iid = iid] by auto
qed

lemma fold_poll_step:
  "poll_step (internal_meeting_id ` snd ` set sel) s
     (fst (fold (\<lambda>(k, m) (s, html_message_error, message_error).
                   get_bbb_recording_by_xml ev (meeting_id m) (internal_meeting_id m)
                     html_message_error message_error s)
                sel (s, html, message)))"
proof (induction sel arbitrary: s html message)
  case Nil
  show ?case by simp
next
  case (Cons x sel)
  obtain k m where x: "x = (k, m)" by (cases x)
  obtain s1 h1 m1 where r: "get_bbb_recording_by_xml ev (meeting_id m) (internal_meeting_id m)
                     html message s = (s1, h1, m1)" by (cases "get_bbb_recording_by_xml ev (meeting_id m) (internal_meeting_id m)
                     html message s") 
  have 1: "poll_step {internal_meeting_id m} s s1"
    using get_bbb_recording_by_xml_step
            [where s = s and iid = "internal_meeting_id m" and ev = ev and mid = "meeting_id m"
               and html = html and message = message]
    by (simp add: r)
  let ?res = "fst (fold (\<lambda>(k, m) (s, html_message_error, message_error).
                   get_bbb_recording_by_xml ev (meeting_id m) (internal_meeting_id m)
                     html_message_error message_error s)
                sel (s1, h1, m1))"
  have "poll_step (internal_meeting_id ` snd ` set (x # sel)) s ?res"
    using 1 Cons.IH [of s1 h1 m1] by (rule poll_step_trans) (auto simp: x)
  then show ?case by (simp add: x r)
qed

lemma get_bbb_meetings_recorded_step:
  "poll_step (internal_meeting_id ` snd ` set (meetings_to_check ev s)) s
     (fst (get_bbb_meetings_recorded ev html message s))"
  unfolding get_bbb_meetings_recorded_def by (rule fold_poll_step)


subsection \<open>The meetings the poller selects\<close>

lemma map_fst_rows: "map fst (rows xs) = [1..<Suc (length xs)]"
  by (simp add: rows_def)

lemma in_rows: "(k, m) \<in> set (rows xs) \<longleftrightarrow> 0 < k \<and> k \<le> length xs \<and> xs ! (k - 1) = m"
proof
  assume "(k, m) \<in> set (rows xs)"
  then obtain i where "i < length xs" "[1..<Suc (length xs)] ! i = k" "xs ! i = m"
    by (auto simp: rows_def in_set_zip)
  then show "0 < k \<and> k \<le> length xs \<and> xs ! (k - 1) = m"
    by (auto simp: nth_upt simp del: upt_Suc)
next
  assume a: "0 < k \<and> k \<le> length xs \<and> xs ! (k - 1) = m"
  then have "k - 1 < length xs" "[1..<Suc (length xs)] ! (k - 1) = k" 
    by (auto simp: nth_upt simp del: upt_Suc)
  with a show "(k, m) \<in> set (rows xs)"
    unfolding rows_def in_set_zip by (intro exI [of _ "k - 1"]) (simp del: upt_Suc)
qed

lemma sorted_keys_filter_rows: "sorted_wrt (<) (map fst (filter P (rows xs)))"
proof -
  have "sorted_wrt (<) (map fst (rows xs))"
    unfolding map_fst_rows by (rule sorted_wrt_upt)
  then have "sorted_wrt (\<lambda>a b. fst a < fst b) (rows xs)"
    by (simp add: sorted_wrt_map)
  then have "sorted_wrt (\<lambda>a b. fst a < fst b) (filter P (rows xs))"
    by (rule sorted_wrt_filter)
  then show ?thesis by (simp add: sorted_wrt_map)
qed

lemma poller_internal_ids:
  "map internal_meeting_id (meetings (fst (get_bbb_meetings_recorded ev html message s)))
   = map internal_meeting_id (meetings s)"
  using get_bbb_meetings_recorded_step [where ev = ev and s = s and html = html and message = message]
  by (simp add: list_eq_iff_nth_eq)

lemma poller_available_mono:
  assumes "i < length (meetings s)" and "recording_available (meetings s ! i)"
  shows "recording_available (meetings (fst (get_bbb_meetings_recorded ev html message s)) ! i)"
  using get_bbb_meetings_recorded_step [where ev = ev and s = s and html = html and message = message] assms by blast

lemma poller_keeps_unselected_row:
  assumes d: "distinct (map internal_meeting_id (meetings s))"
    and i: "i < length (meetings s)"
    and n: "(Suc i, meetings s ! i) \<notin> set (meetings_to_check ev s)"
  shows "meetings (fst (get_bbb_meetings_recorded ev html message s)) ! i = meetings s ! i"
proof -
  have "internal_meeting_id (meetings s ! i) \<notin> internal_meeting_id ` snd ` set (meetings_to_check ev s)"
  proof
    assume "internal_meeting_id (meetings s ! i) \<in> internal_meeting_id ` snd ` set (meetings_to_check ev s)"
    then obtain k m where km: "(k, m) \<in> set (meetings_to_check ev s)"
      "internal_meeting_id m = internal_meeting_id (meetings s ! i)" by force
    then have k: "0 < k" "k \<le> length (meetings s)" "meetings s ! (k - 1) = m"
      by (auto simp: meetings_to_check_def in_rows)
    from k have "k - 1 < length (meetings s)" by arith
    with nth_eq_iff_index_eq [OF d, of "k - 1" i] i km(2) k(3) have "k - 1 = i"
      by simp
    with k have "k = Suc i" "m = meetings s ! i" by auto
    with km(1) n show False by simp
  qed
  with get_bbb_meetings_recorded_step [where ev = ev and s = s and html = html and message = message] i show ?thesis by blast
qed

lemma poller_keeps_available_row:
  assumes "distinct (map internal_meeting_id (meetings s))"
    and "i < length (meetings s)" and "recording_available (meetings s ! i)"
  shows "meetings (fst (get_bbb_meetings_recorded ev html message s)) ! i = meetings s ! i"
  using assms(1,2)
proof (rule poller_keeps_unselected_row)
  show "(Suc i, meetings s ! i) \<notin> set (meetings_to_check ev s)"
    using assms(3) by (simp add: meetings_to_check_def)
qed

text \<open>
  Claim C6. The poller checks exactly the rows of the meetings that are recorded, have
  no recording available yet and whose session date is not before the present time minus
  four days (345600 seconds); a meeting whose session date is strictly older is not among
  them, whatever its \<open>recorded\<close> flag; and they come in increasing order of their keys,
  the order of creation. When the internal ids of the meetings are distinct, the row of a
  meeting that is strictly older is left as it is by the whole poller.
\<close>

theorem C6_poller_selection:
  "((k, m) \<in> set (meetings_to_check ev s) \<longleftrightarrow>
      0 < k \<and> k \<le> length (meetings s) \<and> meetings s ! (k - 1) = m
      \<and> recorded m \<and> \<not> recording_available m \<and> now ev - 345600 \<le> session_date m)
   \<and> (session_date m < now ev - 345600 \<longrightarrow> (k, m) \<notin> set (meetings_to_check ev s))
   \<and> sorted_wrt (<) (map fst (meetings_to_check ev s))
   \<and> (distinct (map internal_meeting_id (meetings s)) \<and> i < length (meetings s)
        \<and> session_date (meetings s ! i) < now ev - 345600 \<longrightarrow>
      meetings (fst (get_bbb_meetings_recorded ev html message s)) ! i = meetings s ! i)"
proof -
  have sel: "(k, m) \<in> set (meetings_to_check ev s) \<longleftrightarrow>
      0 < k \<and> k \<le> length (meetings s) \<and> meetings s ! (k - 1) = m
      \<and> recorded m \<and> \<not> recording_available m \<and> now ev - 345600 \<le> session_date m" for k m
    by (auto simp: meetings_to_check_def in_rows dateSince4d_def)
  have "meetings (fst (get_bbb_meetings_recorded ev html message s)) ! i = meetings s ! i"
    if "distinct (map internal_meeting_id (meetings s))" "i < length (meetings s)"
       "session_date (meetings s ! i) < now ev - 345600"
    using that(1,2)
  proof (rule poller_keeps_unselected_row)
    show "(Suc i, meetings s ! i) \<notin> set (meetings_to_check ev s)"
      using that(3) by (simp add: sel)
  qed
  moreover have "sorted_wrt (<) (map fst (meetings_to_check ev s))"
    by (simp add: meetings_to_check_def sorted_keys_filter_rows)
  ultimately show ?thesis using sel [of k m] by auto
qed

theorem C6_poller_selection_witness:
  "session_date (known_meeting ''a'' ''OLD'' 100 True) < now default_env - 345600
   \<and> (1, known_meeting ''a'' ''OLD'' 100 True) \<notin> set (meetings_to_check default_env state_old_and_new)
   \<and> (2, known_meeting ''b'' ''NEW'' 900000 True) \<in> set (meetings_to_check default_env state_old_and_new)
   \<and> distinct (map internal_meeting_id (meetings state_old_and_new))
   \<and> meetings state_old_and_new ! 0 = known_meeting ''a'' ''OLD'' 100 True
   \<and> meetings (fst (get_bbb_meetings_recorded default_env '''' '''' state_old_and_new)) ! 0
       = known_meeting ''a'' ''OLD'' 100 True"
proof -
  have 1: "session_date (known_meeting ''a'' ''OLD'' 100 True) < now default_env - 345600"
    by (simp add: known_meeting_def default_env_def)
  have 2: "0 < (2::nat) \<and> 2 \<le> length (meetings state_old_and_new)
      \<and> meetings state_old_and_new ! (2 - 1) = known_meeting ''b'' ''NEW'' 900000 True
      \<and> recorded (known_meeting ''b'' ''NEW'' 900000 True)
      \<and> \<not> recording_available (known_meeting ''b'' ''NEW'' 900000 True)
      \<and> now default_env - 345600 \<le> session_date (known_meeting ''b'' ''NEW'' 900000 True)"
    by (simp add: state_old_and_new_def empty_state_def known_meeting_def default_env_def)
  have 3: "distinct (map internal_meeting_id (meetings state_old_and_new))"
    by (simp add: state_old_and_new_def empty_state_def known_meeting_def)
  have 4: "0 < length (meetings state_old_and_new)"
    "meetings state_old_and_new ! 0 = known_meeting ''a'' ''OLD'' 100 True"
    by (simp_all add: state_old_and_new_def empty_state_def)
  from C6_poller_selection [of 1 "known_meeting ''a'' ''OLD'' 100 True" default_env state_old_and_new
         0 "''''" "''''"]
       C6_poller_selection [of 2 "known_meeting ''b'' ''NEW'' 900000 True" default_env
         state_old_and_new 0 "''''" "''''"] 1 2 3 4
  show ?thesis by simp
qed

subsection \<open>The stages of a run and the tables they write\<close>

lemma match_bbb_user_meetings: "meetings (match_bbb_user ev x s) = meetings s"
  by (cases x) (simp add: match_bbb_user_def split: option.splits)

lemma fold_match_bbb_user_meetings: "meetings (fold (match_bbb_user ev) xs s) = meetings s"
  by (induction xs arbitrary: s) (simp_all add: match_bbb_user_meetings)

lemma matching_bbb_pod_user_meetings:
  "meetings (fst (matching_bbb_pod_user ev html message s)) = meetings s"
  by (simp add: matching_bbb_pod_user_def fold_match_bbb_user_meetings)

lemma encode_file_exist_frame:
  "meetings (fst (encode_file_exist ev filename extension message html s)) = meetings s
   \<and> bbb_users (fst (encode_file_exist ev filename extension message html s)) = bbb_users s"
  by (simp add: encode_file_exist_def Let_def split: option.splits sum.splits prod.splits)

lemma process_directory_frame:
  "meetings (fst (process_directory ev files html message s)) = meetings s
   \<and> bbb_users (fst (process_directory ev files html message s)) = bbb_users s"
proof (induction files arbitrary: html message s)
  case Nil
  show ?case by simp
next
  case (Cons f files)
  show ?case
  proof (cases "extension_of f \<in> set (VIDEO_ALLOWED_EXTENSIONS ev) \<and> f \<noteq> extension_of f")
    case False
    then show ?thesis using Cons.IH by (simp add: Let_def)
  next
    case True
    obtain s' r where e: "encode_file_exist ev f (extension_of f) message html s = (s', r)"
      by (cases "encode_file_exist ev f (extension_of f) message html s")
    have s': "meetings s' = meetings s" "bbb_users s' = bbb_users s"
      using encode_file_exist_frame [of ev f "extension_of f" message html s]
      by (simp_all add: e)
    show ?thesis
    proof (cases r)
      case (Inl x)
      with True e s' show ?thesis by (simp add: Let_def)
    next
      case (Inr p)
      obtain h m where "p = (h, m)" by (cases p)
      with Inr True e s' Cons.IH [of h m s'] show ?thesis by (simp add: Let_def)
    qed
  qed
qed

lemma process_directories_frame:
  "meetings (fst (process_directories ev dirs html message s)) = meetings s
   \<and> bbb_users (fst (process_directories ev dirs html message s)) = bbb_users s"
proof (induction dirs arbitrary: html message s)
  case Nil
  show ?case by simp
next
  case (Cons d dirs)
  obtain s' r where e: "process_directory ev d html message s = (s', r)"
    by (cases "process_directory ev d html message s")
  have s': "meetings s' = meetings s" "bbb_users s' = bbb_users s"
    using process_directory_frame [of ev d html message s] by (simp_all add: e)
  show ?case
  proof (cases r)
    case (Inl x)
    with e s' show ?thesis by simp
  next
    case (Inr p)
    obtain h m where "p = (h, m)" by (cases p)
    with Inr e s' Cons.IH [of h m s'] show ?thesis by simp
  qed
qed

lemma handle_stages:
  "fst (handle ev task s) = s \<or>
   (\<exists>h1 m1 h2 m2 h3 m3 h4 m4.
      fst (handle ev task s) =
      fst (process_directories ev (walk (drop_directory ev)) h4 m4
        (fst (matching_bbb_pod_user ev h3 m3
          (fst (get_bbb_meetings_recorded ev h2 m2
            (fst (get_bbb_meetings_by_xml ev h1 m1 s))))))))"
proof (cases "task \<noteq> '''' \<and> task \<in> set valid_args")
  case False
  then show ?thesis by (auto simp: handle_def)
next
  case True
  obtain s1 h1 m1 where 1: "get_bbb_meetings_by_xml ev '''' '''' s = (s1, h1, m1)"
    by (cases "get_bbb_meetings_by_xml ev '''' '''' s")
  obtain s2 h2 m2 where 2: "get_bbb_meetings_recorded ev h1 m1 s1 = (s2, h2, m2)"
    by (cases "get_bbb_meetings_recorded ev h1 m1 s1")
  obtain s3 h3 m3 where 3: "matching_bbb_pod_user ev h2 m2 s2 = (s3, h3, m3)"
    by (cases "matching_bbb_pod_user ev h2 m2 s2")
  obtain s4 r where 4: "process_directories ev (walk (drop_directory ev)) h3 m3 s3 = (s4, r)"
    by (cases "process_directories ev (walk (drop_directory ev)) h3 m3 s3")
  have "fst (handle ev task s) = s4"
    using True by (simp add: handle_def 1 2 3 4 split: sum.splits prod.splits)
  then have "fst (handle ev task s) =
      fst (process_directories ev (walk (drop_directory ev)) h3 m3
        (fst (matching_bbb_pod_user ev h2 m2
          (fst (get_bbb_meetings_recorded ev h1 m1
            (fst (get_bbb_meetings_by_xml ev '''' '''' s)))))))"
    by (simp add: 1 2 3 4)
  then show ?thesis by blast
qed

lemma handle_meetings:
  "fst (handle ev task s) = s \<or>
   (\<exists>h1 m1 h2 m2.
      meetings (fst (handle ev task s)) =
      meetings (fst (get_bbb_meetings_recorded ev h2 m2 (fst (get_bbb_meetings_by_xml ev h1 m1 s)))))"
proof -
  from handle_stages [of ev task s]
  consider (same) "fst (handle ev task s) = s"
    | (run) h1 m1 h2 m2 h3 m3 h4 m4 where
        "fst (handle ev task s) =
         fst (process_directories ev (walk (drop_directory ev)) h4 m4
           (fst (matching_bbb_pod_user ev h3 m3
             (fst (get_bbb_meetings_recorded ev h2 m2
               (fst (get_bbb_meetings_by_xml ev h1 m1 s)))))))"
    by blast
  then show ?thesis
  proof cases
    case same
    then show ?thesis by simp
  next
    case run
    then have "meetings (fst (handle ev task s)) =
      meetings (fst (get_bbb_meetings_recorded ev h2 m2 (fst (get_bbb_meetings_by_xml ev h1 m1 s))))"
      by (simp add: process_directories_frame matching_bbb_pod_user_meetings)
    then show ?thesis by blast
  qed
qed

subsection \<open>An available recording stays available\<close>

lemma handle_distinct:
  assumes "distinct (map internal_meeting_id (meetings s))"
  shows "distinct (map internal_meeting_id (meetings (fst (handle ev task s))))"
  using handle_meetings [of ev task s] assms
  by (auto simp: poller_internal_ids get_bbb_meetings_by_xml_distinct)

lemma handle_keeps_available:
  assumes i: "i < length (meetings s)" and a: "recording_available (meetings s ! i)"
  shows "i < length (meetings (fst (handle ev task s)))
         \<and> recording_available (meetings (fst (handle ev task s)) ! i)
         \<and> (distinct (map internal_meeting_id (meetings s)) \<longrightarrow>
              recording_url (meetings (fst (handle ev task s)) ! i) = recording_url (meetings s ! i)
              \<and> thumbnail_url (meetings (fst (handle ev task s)) ! i) = thumbnail_url (meetings s ! i))"
proof -
  from handle_meetings [of ev task s]
  consider (same) "fst (handle ev task s) = s"
    | (run) h1 m1 h2 m2 where "meetings (fst (handle ev task s)) =
        meetings (fst (get_bbb_meetings_recorded ev h2 m2 (fst (get_bbb_meetings_by_xml ev h1 m1 s))))"
    by blast
  then show ?thesis
  proof cases
    case same
    with i a show ?thesis by simp
  next
    case run
    let ?s1 = "fst (get_bbb_meetings_by_xml ev h1 m1 s)"
    let ?s2 = "fst (get_bbb_meetings_recorded ev h2 m2 ?s1)"
    from get_bbb_meetings_by_xml_rows [OF i, of ev h1 m1]
    have i1: "i < length (meetings ?s1)"
      and r1: "recorded_raised (meetings s ! i) (meetings ?s1 ! i)" by simp_all
    from r1 a have a1: "recording_available (meetings ?s1 ! i)" by auto
    from r1 have u1: "recording_url (meetings ?s1 ! i) = recording_url (meetings s ! i)"
      "thumbnail_url (meetings ?s1 ! i) = thumbnail_url (meetings s ! i)" by auto
    have len: "length (meetings ?s2) = length (meetings ?s1)"
      using get_bbb_meetings_recorded_step [where ev = ev and s = ?s1 and html = h2 and message = m2] by simp
    have a2: "recording_available (meetings ?s2 ! i)"
      using i1 a1 by (rule poller_available_mono)
    have "meetings ?s2 ! i = meetings ?s1 ! i"
      if "distinct (map internal_meeting_id (meetings s))"
      using get_bbb_meetings_by_xml_distinct [OF that] i1 a1 by (rule poller_keeps_available_row)
    with u1 len i1 a2 show ?thesis by (simp add: run)
  qed
qed

text \<open>
  Claim C5. A meeting whose recording is available keeps \<open>recording_available\<close> true
  through any number of runs of the command; and when the internal ids of the meetings
  are distinct (the invariant of the data model, which every run keeps, see
  \<open>handle_distinct\<close>), its \<open>recording_url\<close> and \<open>thumbnail_url\<close> are never written
  again. The poller does not select such a meeting (\<open>meetings_to_check\<close> asks for
  \<open>recording_available\<close> false), and the only write to the field sets it to true.
\<close>

theorem C5_recording_available_monotone:
  assumes "i < length (meetings s)" and "recording_available (meetings s ! i)"
  shows "i < length (meetings (runs rs s))
         \<and> recording_available (meetings (runs rs s) ! i)
         \<and> (distinct (map internal_meeting_id (meetings s)) \<longrightarrow>
              recording_url (meetings (runs rs s) ! i) = recording_url (meetings s ! i)
              \<and> thumbnail_url (meetings (runs rs s) ! i) = thumbnail_url (meetings s ! i))"
  using assms
proof (induction rs arbitrary: s)
  case Nil
  then show ?case by simp
next
  case (Cons r rs)
  obtain ev task where r: "r = (ev, task)" by (cases r)
  let ?s1 = "fst (handle ev task s)"
  from handle_keeps_available [OF Cons.prems, of ev task]
  have 1: "i < length (meetings ?s1)" "recording_available (meetings ?s1 ! i)"
    and u: "distinct (map internal_meeting_id (meetings s)) \<Longrightarrow>
              recording_url (meetings ?s1 ! i) = recording_url (meetings s ! i)
              \<and> thumbnail_url (meetings ?s1 ! i) = thumbnail_url (meetings s ! i)"
    by simp_all
  from Cons.IH [OF 1] handle_distinct [of s ev task] u
  show ?case by (auto simp: r)
qed

theorem C5_recording_available_monotone_witness:
  "0 < length (meetings state_available_M1) \<and> recording_available (meetings state_available_M1 ! 0)
   \<and> distinct (map internal_meeting_id (meetings state_available_M1))
   \<and> recording_url (meetings state_available_M1 ! 0) = Some ''U0''
   \<and> recording_available (meetings (runs [(env_M1_new_recording, ''main''), (env_M1_new_recording, ''main'')] state_available_M1) ! 0)
   \<and> recording_url (meetings (runs [(env_M1_new_recording, ''main''), (env_M1_new_recording, ''main'')] state_available_M1) ! 0) = Some ''U0''
   \<and> thumbnail_url (meetings (runs [(env_M1_new_recording, ''main''), (env_M1_new_recording, ''main'')] state_available_M1) ! 0) = Some ''T0''"
proof -
  have 1: "0 < length (meetings state_available_M1)" by (simp add: state_available_M1_def empty_state_def)
  have 2: "recording_available (meetings state_available_M1 ! 0)"
    by (simp add: state_available_M1_def empty_state_def known_meeting_def)
  have 3: "distinct (map internal_meeting_id (meetings state_available_M1))"
    by (simp add: state_available_M1_def empty_state_def)
  have 4: "recording_url (meetings state_available_M1 ! 0) = Some ''U0''"
       "thumbnail_url (meetings state_available_M1 ! 0) = Some ''T0''"
    by (simp_all add: state_available_M1_def empty_state_def known_meeting_def)
  from C5_recording_available_monotone [OF 1 2, of "[(env_M1_new_recording, ''main''), (env_M1_new_recording, ''main'')]"] 1 2 3 4
  show ?thesis by simp
qed

subsection \<open>Every run keeps the moderators distinct\<close>

lemma get_attendees_distinct:
  "distinct (map participant_key (bbb_users s)) \<Longrightarrow>
   distinct (map participant_key (bbb_users (get_attendees as k html message s)))"
  unfolding get_attendees_def
  by (induction as arbitrary: s) (simp_all add: get_attendee_distinct)

lemma get_meeting_participants:
  assumes "distinct (map participant_key (bbb_users s))"
  shows "distinct (map participant_key (bbb_users (fst (get_meeting ev meeting html message s))))"
  unfolding get_meeting_state get_meeting_try_def Let_def
  using assms
  by (auto split: sum.splits option.splits intro!: get_attendees_distinct)

lemma fold_get_meeting_participants:
  "distinct (map participant_key (bbb_users s)) \<Longrightarrow>
   distinct (map participant_key
      (bbb_users (fold (\<lambda>meeting s. fst (get_meeting ev meeting html message s)) ms s)))"
  by (induction ms arbitrary: s) (simp_all add: get_meeting_participants)

lemma get_bbb_meetings_by_xml_participants:
  "distinct (map participant_key (bbb_users s)) \<Longrightarrow>
   distinct (map participant_key (bbb_users (fst (get_bbb_meetings_by_xml ev html message s))))"
  using fold_get_meeting_participants
  by (simp add: get_bbb_meetings_by_xml_def Let_def split: sum.splits prod.splits)

lemma match_bbb_user_keys:
  assumes "0 < k" and "k \<le> length (bbb_users s)"
    and "participant_key u = participant_key (bbb_users s ! (k - 1))"
  shows "map participant_key (bbb_users (match_bbb_user ev (k, u) s)) =
         map participant_key (bbb_users s)"
proof (cases "first (\<lambda>p. icontains (bbbUsernameFormat ev p) (full_name u)) (pod_users s)")
  case None
  then show ?thesis by (simp add: match_bbb_user_def)
next
  case (Some r)
  obtain j p where "r = (j, p)" by (cases r)
  with Some assms show ?thesis
    by (auto simp: match_bbb_user_def list_eq_iff_nth_eq nth_save participant_key_def)
qed

lemma fold_match_bbb_user_keys:
  assumes "\<forall>(k, u)\<in>set xs. 0 < k \<and> k \<le> length K \<and> participant_key u = K ! (k - 1)"
    and "map participant_key (bbb_users s) = K"
  shows "map participant_key (bbb_users (fold (match_bbb_user ev) xs s)) = K"
  using assms
proof (induction xs arbitrary: s)
  case Nil
  then show ?case by simp
next
  case (Cons x xs)
  obtain k u where x: "x = (k, u)" by (cases x)
  from Cons.prems x have k: "0 < k" "k \<le> length K" "participant_key u = K ! (k - 1)"
    by auto
  from Cons.prems(2) have len: "length (bbb_users s) = length K" by auto
  from k len have lt: "k - 1 < length (bbb_users s)" by arith
  have "K ! (k - 1) = participant_key (bbb_users s ! (k - 1))"
    using lt by (simp add: Cons.prems(2) [symmetric])
  with k have u: "participant_key u = participant_key (bbb_users s ! (k - 1))" by simp
  from k len have "k \<le> length (bbb_users s)" by simp
  from match_bbb_user_keys [OF k(1) this u]
  have "map participant_key (bbb_users (match_bbb_user ev (k, u) s)) = K"
    by (simp add: Cons.prems(2))
  with Cons.IH [of "match_bbb_user ev (k, u) s"] Cons.prems(1) show ?case
    by (simp add: x)
qed

lemma matching_bbb_pod_user_keys:
  "map participant_key (bbb_users (fst (matching_bbb_pod_user ev html message s))) =
   map participant_key (bbb_users s)"
proof -
  have "set (unmatched_bbb_users s) \<subseteq> set (rows (bbb_users s))"
    unfolding unmatched_bbb_users_def
    using set_take_subset [of 500 "rev (filter (\<lambda>(k, u). user_id u = None) (rows (bbb_users s)))"]
    by auto
  then have "0 < k \<and> k \<le> length (bbb_users s) \<and> bbb_users s ! (k - 1) = u"
    if "(k, u) \<in> set (unmatched_bbb_users s)" for k u
    using that by (auto simp: in_rows)
  then have "0 < k \<and> k \<le> length (map participant_key (bbb_users s))
      \<and> participant_key u = map participant_key (bbb_users s) ! (k - 1)"
    if "(k, u) \<in> set (unmatched_bbb_users s)" for k u
    using that by (fastforce simp: nth_map)
  then have "\<forall>(k, u)\<in>set (unmatched_bbb_users s).
      0 < k \<and> k \<le> length (map participant_key (bbb_users s))
      \<and> participant_key u = map participant_key (bbb_users s) ! (k - 1)"
    by blast
  then show ?thesis
    by (simp add: matching_bbb_pod_user_def fold_match_bbb_user_keys)
qed

lemma handle_participants:
  assumes "distinct (map participant_key (bbb_users s))"
  shows "distinct (map participant_key (bbb_users (fst (handle ev task s))))"
proof -
  have poll: "bbb_users (fst (get_bbb_meetings_recorded ev h m t)) = bbb_users t" for h m t
    using get_bbb_meetings_recorded_step [where ev = ev and s = t and html = h and message = m]
    by simp
  from handle_stages [of ev task s]
  consider (same) "fst (handle ev task s) = s"
    | (run) h1 m1 h2 m2 h3 m3 h4 m4 where
        "fst (handle ev task s) =
         fst (process_directories ev (walk (drop_directory ev)) h4 m4
           (fst (matching_bbb_pod_user ev h3 m3
             (fst (get_bbb_meetings_recorded ev h2 m2
               (fst (get_bbb_meetings_by_xml ev h1 m1 s)))))))"
    by blast
  then show ?thesis
  proof cases
    case same
    with assms show ?thesis by simp
  next
    case run
    then have "map participant_key (bbb_users (fst (handle ev task s))) =
      map participant_key (bbb_users (fst (get_bbb_meetings_by_xml ev h1 m1 s)))"
      by (simp add: process_directories_frame matching_bbb_pod_user_keys poll)
    with get_bbb_meetings_by_xml_participants [OF assms, of ev h1 m1] show ?thesis by simp
  qed
qed

lemma runs_participants:
  "distinct (map participant_key (bbb_users s)) \<Longrightarrow>
   distinct (map participant_key (bbb_users (runs rs s)))"
  by (induction rs arbitrary: s) (auto simp: handle_participants)

subsection \<open>Which names the matcher links\<close>

lemma icontains_iff:
  "icontains name needle \<longleftrightarrow> (\<exists>before after. map lower name = before @ map lower needle @ after)"
  by (simp add: icontains_def sublist_def)

lemma matching_dupont:
  "BBB_USERNAME_FORMAT ev = ''first_name last_name'' \<Longrightarrow>
   bbb_users (fst (matching_bbb_pod_user ev html message (dupont_state fullName))) =
     [\<lparr>full_name = fullName, role = ''MODERATOR'', bbb_meeting_id = 1,
       user_id = (if icontains ''Jean Dupont'' fullName then Some 1 else None),
       username = (if icontains ''Jean Dupont'' fullName then Some ''jdupont'' else None)\<rparr>]"
  by (simp add: matching_bbb_pod_user_def unmatched_bbb_users_def rows_def match_bbb_user_def
        first_def bbbUsernameFormat_def save_def dupont_state_def empty_state_def)

text \<open>
  Claim C1, as stated, fails: with the format \<^verbatim>\<open>first_name last_name\<close> and the account
  Jean Dupont, the moderator whose full name is \<^verbatim>\<open>Dupont\<close> is linked to that account,
  since \<^verbatim>\<open>Jean Dupont\<close> contains \<^verbatim>\<open>Dupont\<close>.
\<close>

theorem C1_counterexample:
  "\<not> (user_id (hd (bbb_users (fst (matching_bbb_pod_user default_env '''' ''''
                                   (dupont_state ''Dupont''))))) = None)"
proof -
  have f: "BBB_USERNAME_FORMAT default_env = ''first_name last_name''"
    by (simp add: default_env_def)
  have "icontains ''Jean Dupont'' ''Dupont''" by code_simp
  then show ?thesis by (simp add: matching_dupont [OF f])
qed

text \<open>
  Claim C1, amended. With the format \<^verbatim>\<open>first_name last_name\<close> and the account Jean
  Dupont, an unmatched moderator is linked to the account exactly when its full name
  occurs in \<^verbatim>\<open>Jean Dupont\<close>, letter case ignored: \<^verbatim>\<open>Jean Dupont\<close> and \<^verbatim>\<open>Dupont\<close>
  are both linked. The test goes in that direction only: a remote name that is longer
  than the name of the account, such as \<^verbatim>\<open>Jean Dupont Martin\<close>, is not linked, and an
  account named \<^verbatim>\<open>Dupont\<close> alone would not match the remote \<^verbatim>\<open>Jean Dupont\<close>.
\<close>

theorem C1_matching_containment:
  "bbb_users (fst (matching_bbb_pod_user (ev\<lparr>BBB_USERNAME_FORMAT := ''first_name last_name''\<rparr>)
                     html message (dupont_state fullName))) =
     [\<lparr>full_name = fullName, role = ''MODERATOR'', bbb_meeting_id = 1,
       user_id = (if icontains ''Jean Dupont'' fullName then Some 1 else None),
       username = (if icontains ''Jean Dupont'' fullName then Some ''jdupont'' else None)\<rparr>]
   \<and> icontains ''Jean Dupont'' ''Jean Dupont''
   \<and> icontains ''Jean Dupont'' ''Dupont''
   \<and> icontains ''Jean Dupont'' ''jean DUPONT''
   \<and> \<not> icontains ''Jean Dupont'' ''Jean Dupont Martin''
   \<and> \<not> icontains ''Dupont'' ''Jean Dupont''"
proof -
  have "icontains ''Jean Dupont'' ''Jean Dupont''" by code_simp
  moreover have "icontains ''Jean Dupont'' ''Dupont''" by code_simp
  moreover have "icontains ''Jean Dupont'' ''jean DUPONT''" by code_simp
  moreover have "\<not> icontains ''Jean Dupont'' ''Jean Dupont Martin''" by code_simp
  moreover have "\<not> icontains ''Dupont'' ''Jean Dupont''" by code_simp
  ultimately show ?thesis by (simp add: matching_dupont)
qed

subsection \<open>Which playback entry is stored\<close>

text \<open>
  Claim C4 does not hold of the code. For a recording of M1 with the playback entries
  (U1, T1) and (U2, T2), \<open>get_recording\<close> stores U2 and T2: the loop over the playback
  entries assigns both variables at every entry and has no \<^verbatim>\<open>break\<close>, so the last
  entry overwrites the first one, against the comment \<^verbatim>\<open>We take the first thumbnail found\<close>.
  Inside one playback entry the code does take the first URL and the first thumbnail
  (\<^verbatim>\<open>[0]\<close>): with one entry of two formats it stores U1 and T1.
\<close>

theorem C4_last_playback_overwrites_first:
  "get_recording recording_two_playbacks ''M1'' '''' '''' state_M1 =
     (state_M1\<lparr>meetings :=
        [(known_meeting ''m'' ''M1'' 900000 True)
           \<lparr>recording_available := True, recording_url := Some ''U2'',
            thumbnail_url := Some ''T2''\<rparr>]\<rparr>, '''', '''')
   \<and> recording_url (hd (meetings (fst (get_recording recording_two_playbacks ''M1'' '''' '''' state_M1))))
       \<noteq> Some ''U1''
   \<and> thumbnail_url (hd (meetings (fst (get_recording recording_two_playbacks ''M1'' '''' '''' state_M1))))
       \<noteq> Some ''T1''
   \<and> get_recording recording_two_formats ''M1'' '''' '''' state_M1 =
     (state_M1\<lparr>meetings :=
        [(known_meeting ''m'' ''M1'' 900000 True)
           \<lparr>recording_available := True, recording_url := Some ''U1'',
            thumbnail_url := Some ''T1''\<rparr>]\<rparr>, '''', '''')"
  by code_simp

text \<open>A playback entry without a thumbnail raises in the loop: nothing is stored, and
  the entry that \<open>get_recording\<close> returns is the one its caller drops.\<close>

lemma get_recording_url_only:
  "get_recording recording_url_only ''M1'' '''' '''' state_M1 =
     (state_M1,
      ''<li>Problem to get BBB recording and save in Pod database : list index out of range. </li>'',
      ''Problem to get BBB recording and save in Pod database : list index out of range. \<newline>'')"
  by code_simp

subsection \<open>The errors of a meeting do not reach the report\<close>

lemma get_bbb_meetings_by_xml_messages:
  assumes "getMeetings ev = Inr xmldoc" and "tag_data ''returncode'' xmldoc = Inr returncode"
  shows "snd (get_bbb_meetings_by_xml ev html message s) =
           (if returncode = ''FAILED''
            then (add_html html failed_err, add_text message failed_err)
            else (html, message))"
  using assms by (simp add: get_bbb_meetings_by_xml_def Let_def)

lemma get_meeting_messages:
  "snd (get_meeting ev meeting html message s) = (html, message)
   \<or> (\<exists>err. snd (get_meeting ev meeting html message s) =
               (add_html html err, add_text message err))"
  by (cases "get_meeting_try ev meeting html message s")
     (auto simp: get_meeting_def Let_def split: option.splits)

text \<open>
  Claim C2 does not hold of the code. \<open>get_meeting\<close> builds one entry for each of the two
  messages when the meeting element lacks its internal id or has a malformed date, and
  returns them; \<open>get_bbb_meetings_by_xml\<close> does not assign what it returns, so the
  messages of the run stay empty and \<open>handle\<close> sends no mail. It is the same for an
  attendee without a name, whose entry \<open>get_meeting\<close> drops, and for a recording without
  its internal id, whose entry \<open>get_bbb_recording_by_xml\<close> drops.
\<close>

theorem C2_errors_of_get_meeting_are_lost:
  "get_meeting env_bad_meetings meeting_without_internal_id '''' '''' empty_state =
     (empty_state,
      ''<li>Problem to get BBB meeting and save in Pod database : list index out of range. </li>'',
      ''Problem to get BBB meeting and save in Pod database : list index out of range. \<newline>'')
   \<and> get_meeting env_bad_meetings (meeting_elem ''m'' ''M1'' ''bad'' ''true'' []) '''' '''' empty_state =
     (empty_state,
      ''<li>Problem to get BBB meeting and save in Pod database : Unknown string format. </li>'',
      ''Problem to get BBB meeting and save in Pod database : Unknown string format. \<newline>'')
   \<and> get_bbb_meetings_by_xml env_bad_meetings '''' '''' empty_state = (empty_state, '''', '''')
   \<and> handle env_bad_meetings ''main'' empty_state = (empty_state, Inr None)
   \<and> get_attendee attendee_without_name 1 '''' '''' state_M1 =
     (state_M1,
      ''<li>Problem to get BBB attendee and save in Pod database : list index out of range. </li>'',
      ''Problem to get BBB attendee and save in Pod database : list index out of range. \<newline>'')
   \<and> get_meeting quiet_env (meeting_elem ''m'' ''M1'' ''2020-05-01'' ''true'' [attendee_without_name])
         '''' '''' state_M1 = (state_M1, '''', '''')
   \<and> get_recording recording_without_internal_id ''M1'' '''' '''' state_M1 =
     (state_M1,
      ''<li>Problem to get BBB recording and save in Pod database : list index out of range. </li>'',
      ''Problem to get BBB recording and save in Pod database : list index out of range. \<newline>'')
   \<and> get_bbb_recording_by_xml env_bad_recording ''m'' ''M1'' '''' '''' state_M1 = (state_M1, '''', '''')"
  by code_simp

subsection \<open>A failing move or submission ends the run\<close>

text \<open>
  Claim C3 does not hold of the code. Neither \<open>encode_file_exist\<close> nor
  \<open>process_directory\<close> nor \<open>handle\<close> catches an exception of the move or of the
  submission. With the files \<^verbatim>\<open>a.mp4\<close> and \<^verbatim>\<open>b.mp4\<close> of two known meetings: when the
  move of \<^verbatim>\<open>a.mp4\<close> fails the run ends with the exception, nothing is moved and no
  report is made; when the submission of the video of \<^verbatim>\<open>a.mp4\<close> fails, the run ends
  there as well and \<^verbatim>\<open>b.mp4\<close> stays in place; when nothing fails both files are moved
  and the run reaches its report.
\<close>

theorem C3_failure_aborts_the_run:
  "handle (env_two_files True False) ''main'' state_a_b = (state_a_b, Inl OSError)
   \<and> snd (handle (env_two_files False True) ''main'' state_a_b) = Inl EncodeError
   \<and> moved (fst (handle (env_two_files False True) ''main'' state_a_b))
       = [''/data/bbb-recorder/media/a.mp4'']
   \<and> snd (handle (env_two_files False False) ''main'' state_a_b) = Inr None
   \<and> moved (fst (handle (env_two_files False False) ''main'' state_a_b))
       = [''/data/bbb-recorder/media/a.mp4'', ''/data/bbb-recorder/media/b.mp4'']"
  by code_simp

subsection \<open>The key of a file whose name repeats its extension\<close>

text \<open>
  Claim C8 does not hold of the code. The file \<^verbatim>\<open>a.mp4.mp4\<close> has the allowed extension
  \<^verbatim>\<open>mp4\<close> and is the meeting id \<^verbatim>\<open>a.mp4\<close> followed by \<^verbatim>\<open>.mp4\<close>, but the key that
  \<open>encode_file_exist\<close> looks up is \<^verbatim>\<open>a\<close>, since \<^verbatim>\<open>replace\<close> removes every occurrence
  of \<^verbatim>\<open>.mp4\<close>: the meeting \<^verbatim>\<open>a.mp4\<close> is not found and its file is left where it is.
\<close>

theorem C8_every_occurrence_removed:
  "extension_of ''a.mp4.mp4'' = ''mp4''
   \<and> ''mp4'' \<in> set (VIDEO_ALLOWED_EXTENSIONS default_env)
   \<and> ''a.mp4.mp4'' = ''a.mp4'' @ ''.'' @ ''mp4''
   \<and> internalMeetingId_of ''a.mp4.mp4'' ''mp4'' = ''a''
   \<and> process_directory default_env [''a.mp4.mp4''] '''' '''' state_a_mp4
       = (state_a_mp4, Inr ('''', ''''))"
  by code_simp

end
